theory Spec2Isabelle
  imports Main "HOL-Library.Word"
begin

unbundle bit_operations_syntax

section \<open>Data model of \<^verbatim>\<open>src/nasl_plugins.c\<close>\<close>

text \<open>
  The file has three functions: \<^verbatim>\<open>prefs_add_nvti\<close> (lines 71-93),
  \<^verbatim>\<open>nasl_plugin_add\<close> (lines 109-189) and \<^verbatim>\<open>nasl_thread\<close>
  (lines 227-273), the body of the process that \<^verbatim>\<open>nasl_plugin_launch\<close> spawns.
  They are embedded as functions on an explicit world: the NVT cache, the global
  preferences, the time stamps of the files, the scheduling state of the process and
  the list of the calls made to the outside, in the order the code makes them.

  A C \<^verbatim>\<open>int\<close> used as a set of flags is a \<open>32 word\<close>; one that is only
  compared (a return code, a socket number, a \<^verbatim>\<open>time_t\<close>) is an \<open>int\<close>.
  A \<^verbatim>\<open>char *\<close> that the code tests against \<^verbatim>\<open>NULL\<close> (the OID) is a
  \<open>string option\<close>; the other strings are the C strings themselves.
\<close>

record nvtpref =
  nvtpref_name :: string
  nvtpref_type :: string
  nvtpref_default :: string

record nvti =
  nvti_oid :: "string option"
  nvti_name :: string
  nvti_prefs :: "nvtpref list"

definition nvti_new :: nvti where
  "nvti_new = \<lparr>nvti_oid = None, nvti_name = [], nvti_prefs = []\<rparr>"

definition nvti_pref_len :: "nvti \<Rightarrow> nat" where
  "nvti_pref_len n = length (nvti_prefs n)"

definition nvti_pref :: "nvti \<Rightarrow> nat \<Rightarrow> nvtpref" where
  "nvti_pref n i = nvti_prefs n ! i"

record file_stat =
  st_atime :: int
  st_mtime :: int
  utime_permitted :: bool

record nasl_thread_args =
  nargs_hostname :: string
  nargs_name :: string
  nargs_oid :: "string option"
  nargs_soc :: int

text \<open>The messages of the \<^verbatim>\<open>g_debug\<close> calls, one constructor per call site.\<close>

datatype debug_msg =
    Could_not_be_loaded string
  | Timestamp_fixed string
  | Timestamp_not_fixed string
  | Not_added_to_cache string
  | Failed_to_load string
  | Failed_to_load_no_OID string
  | Unable_to_renice int
  | Failed_to_drop_privileges string

text \<open>The calls the code makes to the outside, with their arguments.\<close>

datatype event =
    Nvticache_get string
  | Nvticache_add nvti string
  | Nvticache_reset
  | Exec_nasl_script string "string option" "32 word"
  | Stat string
  | Utime string int int
  | Prefs_set string string
  | G_debug debug_msg
  | Nice int
  | Pluginlaunch_child_cleanup
  | Kb_lnk_reset
  | Arg_set_value string int
  | Proctitle_set string string
  | Drop_privileges
  | Internal_send int "string option" "32 word"

text \<open>
  The world. \<open>'c\<close> is the state of the cache store, which the file only reaches
  through \<^verbatim>\<open>nvticache_get\<close>, \<^verbatim>\<open>nvticache_add\<close> and
  \<^verbatim>\<open>nvticache_reset\<close>.
\<close>

record 'c world =
  nvticache :: 'c
  prefs :: "string \<rightharpoonup> string"
  files :: "string \<rightharpoonup> file_stat"
  niceness :: int
  may_raise_priority :: bool
  trace :: "event list"

text \<open>
  What the file uses and does not define: the constants of the headers, the cache store,
  the reading of a boolean preference, the interpreter, the clock, the result of
  \<^verbatim>\<open>drop_privileges\<close>, and the content of the \<^verbatim>\<open>struct stat\<close> that
  \<^verbatim>\<open>stat\<close> leaves unwritten when it fails (line 147 does not test its result).
  The interpreter in description mode fills the descriptor it is given and returns a
  status; run on a target it returns a status.
\<close>

record 'c extern =
  PATH_MAX :: nat
  NASL_EXEC_DESCR :: "32 word"
  NASL_ALWAYS_SIGNED :: "32 word"
  INTERNAL_COMM_MSG_TYPE_CTRL :: "32 word"
  INTERNAL_COMM_CTRL_FINISHED :: "32 word"
  GVM_DROP_PRIVILEGES_OK :: int
  GVM_DROP_PRIVILEGES_FAIL_NOT_ROOT :: int
  prefs_bool :: "(string \<rightharpoonup> string) \<Rightarrow> string \<Rightarrow> bool"
  cache_get :: "'c \<Rightarrow> string \<Rightarrow> nvti option"
  cache_add :: "'c \<Rightarrow> nvti \<Rightarrow> string \<Rightarrow> 'c"
  cache_reset :: "'c \<Rightarrow> 'c"
  interp_descr :: "string \<Rightarrow> 32 word \<Rightarrow> nvti \<Rightarrow> int \<times> nvti"
  interp_run :: "string \<Rightarrow> string option \<Rightarrow> 32 word \<Rightarrow> int"
  time_NULL :: int
  uninit_st_mtime :: int
  drop_privileges_res :: int

section \<open>The calls to the outside\<close>

definition emit :: "event \<Rightarrow> 'c world \<Rightarrow> 'c world" where
  "emit e w = w\<lparr>trace := trace w @ [e]\<rparr>"

definition g_debug :: "debug_msg \<Rightarrow> 'c world \<Rightarrow> 'c world" where
  "g_debug m w = emit (G_debug m) w"

definition prefs_get_bool :: "'c extern \<Rightarrow> string \<Rightarrow> 'c world \<Rightarrow> bool" where
  "prefs_get_bool x key w = prefs_bool x (prefs w) key"

definition prefs_set :: "string \<Rightarrow> string \<Rightarrow> 'c world \<Rightarrow> 'c world" where
  "prefs_set key val w = emit (Prefs_set key val) (w\<lparr>prefs := (prefs w)(key \<mapsto> val)\<rparr>)"

definition nvticache_get :: "'c extern \<Rightarrow> string \<Rightarrow> 'c world \<Rightarrow> nvti option \<times> 'c world" where
  "nvticache_get x name w = (cache_get x (nvticache w) name, emit (Nvticache_get name) w)"

definition nvticache_add :: "'c extern \<Rightarrow> nvti \<Rightarrow> string \<Rightarrow> 'c world \<Rightarrow> 'c world" where
  "nvticache_add x n name w =
     emit (Nvticache_add n name) (w\<lparr>nvticache := cache_add x (nvticache w) n name\<rparr>)"

definition nvticache_reset :: "'c extern \<Rightarrow> 'c world \<Rightarrow> 'c world" where
  "nvticache_reset x w = emit Nvticache_reset (w\<lparr>nvticache := cache_reset x (nvticache w)\<rparr>)"

definition exec_nasl_script_descr ::
  "'c extern \<Rightarrow> nvti \<Rightarrow> string \<Rightarrow> 32 word \<Rightarrow> 'c world \<Rightarrow> (int \<times> nvti) \<times> 'c world" where
  "exec_nasl_script_descr x n script mode w =
     (interp_descr x script mode n, emit (Exec_nasl_script script None mode) w)"

definition exec_nasl_script ::
  "'c extern \<Rightarrow> string \<Rightarrow> string option \<Rightarrow> 32 word \<Rightarrow> 'c world \<Rightarrow> int \<times> 'c world" where
  "exec_nasl_script x script oid mode w =
     (interp_run x script oid mode, emit (Exec_nasl_script script oid mode) w)"

text \<open>
  \<^verbatim>\<open>stat\<close>: the modification time the code reads afterwards. When the call fails
  the buffer keeps what the stack held.
\<close>

definition stat_mtime :: "'c extern \<Rightarrow> string \<Rightarrow> 'c world \<Rightarrow> int \<times> 'c world" where
  "stat_mtime x path w =
     (case files w path of
        Some f \<Rightarrow> (st_mtime f, emit (Stat path) w)
      | None \<Rightarrow> (uninit_st_mtime x, emit (Stat path) w))"

text \<open>
  \<^verbatim>\<open>utime\<close> (POSIX): 0 and both times set, or -1 and nothing changed when the
  file is missing or the caller may not change its times.
\<close>

definition utime :: "string \<Rightarrow> int \<Rightarrow> int \<Rightarrow> 'c world \<Rightarrow> int \<times> 'c world" where
  "utime path actime modtime w =
     (case files w path of
        Some f \<Rightarrow>
          if utime_permitted f
          then (0, emit (Utime path actime modtime)
                     (w\<lparr>files := (files w)(path \<mapsto> f\<lparr>st_atime := actime, st_mtime := modtime\<rparr>)\<rparr>))
          else (- 1, emit (Utime path actime modtime) w)
      | None \<Rightarrow> (- 1, emit (Utime path actime modtime) w))"

text \<open>
  \<^verbatim>\<open>nice\<close> (POSIX): the increment is added to the nice value, kept within
  -20..19; a higher nice value is a lower scheduling priority. A negative increment
  needs the right to raise the priority and fails with \<^verbatim>\<open>EPERM\<close> without it.
  The result is the return value, \<^verbatim>\<open>errno\<close> (0 when it was 0 before and the
  call succeeded) and the world.
\<close>

definition EPERM :: int where
  "EPERM = 1"

definition nice :: "int \<Rightarrow> 'c world \<Rightarrow> int \<times> int \<times> 'c world" where
  "nice incr w =
     (if incr < 0 \<and> \<not> may_raise_priority w
      then (- 1, EPERM, emit (Nice incr) w)
      else (let n = max (- 20) (min 19 (niceness w + incr))
            in (n, 0, emit (Nice incr) (w\<lparr>niceness := n\<rparr>))))"

text \<open>
  \<^verbatim>\<open>g_ascii_isspace\<close> and \<^verbatim>\<open>g_strchomp\<close> (GLib): the trailing white space
  of a string is cut off.
\<close>

definition g_ascii_isspace :: "char \<Rightarrow> bool" where
  "g_ascii_isspace c =
     (c = CHR '' '' \<or> c = CHR 0x09 \<or> c = CHR 0x0A \<or> c = CHR 0x0C \<or> c = CHR 0x0D)"

definition g_strchomp :: "string \<Rightarrow> string" where
  "g_strchomp s = rev (dropWhile g_ascii_isspace (rev s))"

text \<open>\<^verbatim>\<open>snprintf (fullname, sizeof (fullname), "%s/%s", folder, name)\<close>, line 117:
  the buffer has \<^verbatim>\<open>PATH_MAX + 1\<close> bytes, so at most \<^verbatim>\<open>PATH_MAX\<close> characters
  are kept.\<close>

definition snprintf_fullname :: "nat \<Rightarrow> string \<Rightarrow> string \<Rightarrow> string" where
  "snprintf_fullname path_max folder name = take path_max (folder @ ''/'' @ name)"

section \<open>\<^verbatim>\<open>prefs_add_nvti\<close>, lines 71-93\<close>

text \<open>\<^verbatim>\<open>g_strdup_printf ("%s[%s]:%s", nvti_name (nvti), nvtpref_type (np), cname)\<close>
  with \<^verbatim>\<open>cname\<close> the chomped copy of the name of the preference.\<close>

definition pref_key :: "nvti \<Rightarrow> nvtpref \<Rightarrow> string" where
  "pref_key n np =
     nvti_name n @ ''['' @ nvtpref_type np @ '']:'' @ g_strchomp (nvtpref_name np)"

text \<open>The loop of lines 79-92, from index \<open>i\<close> on.\<close>

function prefs_add_nvti_from :: "nvti \<Rightarrow> nat \<Rightarrow> 'c world \<Rightarrow> 'c world" where
  "prefs_add_nvti_from n i w =
     (if i < nvti_pref_len n
      then (let np = nvti_pref n i
            in prefs_add_nvti_from n (Suc i) (prefs_set (pref_key n np) (nvtpref_default np) w))
      else w)"
  by pat_completeness auto
termination
  by (relation "measure (\<lambda>(n, i, w). nvti_pref_len n - i)") auto

declare prefs_add_nvti_from.simps [simp del]

fun prefs_add_nvti :: "nvti option \<Rightarrow> 'c world \<Rightarrow> 'c world" where
  "prefs_add_nvti None w = w"
| "prefs_add_nvti (Some n) w = prefs_add_nvti_from n 0 w"

section \<open>\<^verbatim>\<open>nasl_plugin_add\<close>, lines 109-189\<close>

text \<open>Lines 143-157: the time stamp of the plugin file, after a successful parse.\<close>

definition fix_timestamp :: "'c extern \<Rightarrow> string \<Rightarrow> 'c world \<Rightarrow> 'c world" where
  "fix_timestamp x fullname w =
     (let now = time_NULL x - 1;
          (mtime, w1) = stat_mtime x fullname w
      in if mtime > now
         then (let (r, w2) = utime fullname now now w1
               in if r = 0 then g_debug (Timestamp_fixed fullname) w2
                  else g_debug (Timestamp_not_fixed fullname) w2)
         else w1)"

text \<open>Lines 171-188, where the two branches meet again.\<close>

definition nasl_plugin_add_tail :: "string \<Rightarrow> nvti option \<Rightarrow> 'c world \<Rightarrow> int \<times> 'c world" where
  "nasl_plugin_add_tail name nvti w =
     (case nvti of
        None \<Rightarrow> (- 1, g_debug (Failed_to_load name) w)
      | Some n \<Rightarrow>
          if nvti_oid n = None
          then (- 1, g_debug (Failed_to_load_no_OID name) w)
          else (0, prefs_add_nvti (Some n) w))"

text \<open>Lines 126-169, the branch taken when the cache has no entry for the name.\<close>

definition nasl_plugin_add_miss ::
  "'c extern \<Rightarrow> string \<Rightarrow> string \<Rightarrow> 32 word \<Rightarrow> 'c world \<Rightarrow> int \<times> 'c world" where
  "nasl_plugin_add_miss x fullname name nasl_mode w =
     (let ((r, new_nvti), w1) = exec_nasl_script_descr x nvti_new fullname nasl_mode w
      in if r < 0
         then (- 1, g_debug (Could_not_be_loaded fullname) w1)
         else (let w2 = fix_timestamp x fullname w1;
                   (nvti, w3) =
                     (if nvti_oid new_nvti \<noteq> None
                      then nvticache_get x name (nvticache_add x new_nvti name w2)
                      else (None, g_debug (Not_added_to_cache name) w2))
               in nasl_plugin_add_tail name nvti w3))"

definition nasl_plugin_add :: "'c extern \<Rightarrow> string \<Rightarrow> string \<Rightarrow> 'c world \<Rightarrow> int \<times> 'c world" where
  "nasl_plugin_add x folder name w =
     (let fullname = snprintf_fullname (PATH_MAX x) folder name;
          nasl_mode =
            (if prefs_get_bool x ''nasl_no_signature_check'' w
             then NASL_EXEC_DESCR x OR NASL_ALWAYS_SIGNED x
             else NASL_EXEC_DESCR x);
          (nvti, w1) = nvticache_get x name w
      in case nvti of
           None \<Rightarrow> nasl_plugin_add_miss x fullname name nasl_mode w1
         | Some n \<Rightarrow> nasl_plugin_add_tail name (Some n) w1)"

section \<open>\<^verbatim>\<open>nasl_thread\<close>, lines 227-273\<close>

text \<open>Lines 239-248.\<close>

definition be_nice :: "'c extern \<Rightarrow> 'c world \<Rightarrow> 'c world" where
  "be_nice x w =
     (if prefs_get_bool x ''be_nice'' w
      then (let (nice_retval, errno, w1) = nice (- 5) w
            in if nice_retval = - 1 \<and> errno \<noteq> 0
               then g_debug (Unable_to_renice errno) w1
               else w1)
      else w)"

text \<open>Lines 259-268.\<close>

definition drop_privs :: "'c extern \<Rightarrow> string \<Rightarrow> 'c world \<Rightarrow> 'c world" where
  "drop_privs x name w =
     (if prefs_get_bool x ''drop_privileges'' w
      then (let drop_priv_res = drop_privileges_res x;
                w1 = emit Drop_privileges w
            in if drop_priv_res \<noteq> GVM_DROP_PRIVILEGES_OK x
               then (if drop_priv_res \<noteq> GVM_DROP_PRIVILEGES_FAIL_NOT_ROOT x
                     then g_debug (Failed_to_drop_privileges name) w1
                     else w1)
               else w1)
      else w)"

definition nasl_thread :: "'c extern \<Rightarrow> nasl_thread_args \<Rightarrow> 'c world \<Rightarrow> 'c world" where
  "nasl_thread x nargs w =
     (let name = nargs_name nargs;
          w1 = nvticache_reset x w;
          w2 = be_nice x w1;
          w3 = emit Pluginlaunch_child_cleanup w2;
          w4 = emit Kb_lnk_reset w3;
          w5 = emit (Arg_set_value ''global_socket'' (nargs_soc nargs)) w4;
          w6 = emit (Proctitle_set (nargs_hostname nargs) name) w5;
          nasl_mode = (if prefs_get_bool x ''nasl_no_signature_check'' w6
                       then 0 OR NASL_ALWAYS_SIGNED x else 0);
          w7 = drop_privs x name w6;
          (r, w8) = exec_nasl_script x name (nargs_oid nargs) nasl_mode w7
      in emit (Internal_send (nargs_soc nargs) None
                 (INTERNAL_COMM_MSG_TYPE_CTRL x OR INTERNAL_COMM_CTRL_FINISHED x)) w8)"

section \<open>Reading a run\<close>

text \<open>The calls a run adds to the trace of the world it starts from.\<close>

definition new_events :: "'c world \<Rightarrow> 'c world \<Rightarrow> event list" where
  "new_events w w' = drop (length (trace w)) (trace w')"

fun is_internal_send :: "event \<Rightarrow> bool" where
  "is_internal_send (Internal_send s p f) = True"
| "is_internal_send e = False"

fun is_exec :: "event \<Rightarrow> bool" where
  "is_exec (Exec_nasl_script s oid m) = True"
| "is_exec e = False"

text \<open>The calls that write to the cache or look at or change a file.\<close>

fun writes_cache_or_file :: "event \<Rightarrow> bool" where
  "writes_cache_or_file (Nvticache_add n name) = True"
| "writes_cache_or_file (Stat p) = True"
| "writes_cache_or_file (Utime p a m) = True"
| "writes_cache_or_file e = False"

text \<open>The key/value pairs a run writes with \<^verbatim>\<open>prefs_set\<close>, in order.\<close>

fun written :: "event \<Rightarrow> (string \<times> string) list" where
  "written (Prefs_set k v) = [(k, v)]"
| "written e = []"

definition writes :: "event list \<Rightarrow> (string \<times> string) list" where
  "writes evs = concat (map written evs)"

text \<open>The pairs \<^verbatim>\<open>prefs_add_nvti\<close> is to write for a descriptor, in the order of
  its preferences.\<close>

definition pref_writes :: "nvti \<Rightarrow> (string \<times> string) list" where
  "pref_writes n = map (\<lambda>np. (pref_key n np, nvtpref_default np)) (nvti_prefs n)"

text \<open>The two values \<^verbatim>\<open>nasl_plugin_add\<close> computes first (lines 114-122).\<close>

definition fullname_of :: "'c extern \<Rightarrow> string \<Rightarrow> string \<Rightarrow> string" where
  "fullname_of x folder name = snprintf_fullname (PATH_MAX x) folder name"

definition descr_mode :: "'c extern \<Rightarrow> 'c world \<Rightarrow> 32 word" where
  "descr_mode x w =
     (if prefs_get_bool x ''nasl_no_signature_check'' w
      then NASL_EXEC_DESCR x OR NASL_ALWAYS_SIGNED x
      else NASL_EXEC_DESCR x)"

text \<open>What line 148 reads after \<^verbatim>\<open>stat\<close>, and whether \<^verbatim>\<open>utime\<close> succeeds.\<close>

definition stat_read :: "'c extern \<Rightarrow> string \<Rightarrow> 'c world \<Rightarrow> int" where
  "stat_read x path w =
     (case files w path of Some f \<Rightarrow> st_mtime f | None \<Rightarrow> uninit_st_mtime x)"

definition utime_ok :: "string \<Rightarrow> 'c world \<Rightarrow> bool" where
  "utime_ok path w = (case files w path of Some f \<Rightarrow> utime_permitted f | None \<Rightarrow> False)"

text \<open>The flags \<^verbatim>\<open>nasl_thread\<close> runs the interpreter with (lines 234, 256-257), and
  the message of lines 271-272.\<close>

definition thread_mode :: "'c extern \<Rightarrow> 'c world \<Rightarrow> 32 word" where
  "thread_mode x w =
     (if prefs_get_bool x ''nasl_no_signature_check'' w then 0 OR NASL_ALWAYS_SIGNED x else 0)"

definition completion_marker :: "'c extern \<Rightarrow> nasl_thread_args \<Rightarrow> event" where
  "completion_marker x nargs =
     Internal_send (nargs_soc nargs) None
       (INTERNAL_COMM_MSG_TYPE_CTRL x OR INTERNAL_COMM_CTRL_FINISHED x)"

section \<open>A concrete installation\<close>

text \<open>
  One instance of the surroundings, on which the theorems below are run: the cache is a
  finite map from file names to descriptors, a boolean preference is set when its value
  is \<open>yes\<close>, and the interpreter knows three scripts: one that declares an OID, a
  name and three preferences, one that stops before it declares an OID, and one that
  fails. The header constants have sample values.
\<close>

definition services_nvti :: nvti where
  "services_nvti =
     \<lparr>nvti_oid = Some ''1.3.6.1.4.1.25623.1.0.10330'',
      nvti_name = ''Services'',
      nvti_prefs =
        [\<lparr>nvtpref_name = ''Timeout :  '', nvtpref_type = ''entry'', nvtpref_default = ''5''\<rparr>,
         \<lparr>nvtpref_name = ''Parallel'', nvtpref_type = ''checkbox'', nvtpref_default = ''no''\<rparr>,
         \<lparr>nvtpref_name = ''Timeout :'', nvtpref_type = ''entry'', nvtpref_default = ''9''\<rparr>]\<rparr>"

definition demo_interp :: "string \<Rightarrow> 32 word \<Rightarrow> nvti \<Rightarrow> int \<times> nvti" where
  "demo_interp script mode n =
     (if script = ''/plugins/services.nasl'' then (0, services_nvti)
      else if script = ''/plugins/exit_early.nasl'' then (0, n\<lparr>nvti_name := ''Exit early''\<rparr>)
      else (- 1, n))"

definition demo_extern :: "(string \<rightharpoonup> nvti) extern" where
  "demo_extern =
     \<lparr>PATH_MAX = 4096,
      NASL_EXEC_DESCR = 1,
      NASL_ALWAYS_SIGNED = 8,
      INTERNAL_COMM_MSG_TYPE_CTRL = 65536,
      INTERNAL_COMM_CTRL_FINISHED = 1,
      GVM_DROP_PRIVILEGES_OK = 0,
      GVM_DROP_PRIVILEGES_FAIL_NOT_ROOT = 1,
      prefs_bool = (\<lambda>m key. m key = Some ''yes''),
      cache_get = (\<lambda>c name. c name),
      cache_add = (\<lambda>c n name. c(name \<mapsto> n)),
      cache_reset = (\<lambda>c. c),
      interp_descr = demo_interp,
      interp_run = (\<lambda>script oid mode. 0),
      time_NULL = 1000,
      uninit_st_mtime = 0,
      drop_privileges_res = 0\<rparr>"

text \<open>A cache store that keeps only the first preference of what it is given.\<close>

definition lossy_extern :: "(string \<rightharpoonup> nvti) extern" where
  "lossy_extern =
     demo_extern\<lparr>cache_add := (\<lambda>c n name. c(name \<mapsto> n\<lparr>nvti_prefs := take 1 (nvti_prefs n)\<rparr>))\<rparr>"

definition demo_world :: "(string \<rightharpoonup> nvti) world" where
  "demo_world =
     \<lparr>nvticache = Map.empty,
      prefs = [''be_nice'' \<mapsto> ''yes'', ''drop_privileges'' \<mapsto> ''yes''],
      files =
        [''/plugins/services.nasl'' \<mapsto>
           \<lparr>st_atime = 10, st_mtime = 2000, utime_permitted = True\<rparr>,
         ''/plugins/exit_early.nasl'' \<mapsto>
           \<lparr>st_atime = 10, st_mtime = 20, utime_permitted = True\<rparr>],
      niceness = 0,
      may_raise_priority = True,
      trace = []\<rparr>"

text \<open>A cache store that loses the OID of what it is given, a cache that holds a
  descriptor without OID, a cache that holds the sample descriptor, and a plugin file whose
  time stamps may not be changed.\<close>

definition stripping_extern :: "(string \<rightharpoonup> nvti) extern" where
  "stripping_extern =
     demo_extern\<lparr>cache_add := (\<lambda>c n name. c(name \<mapsto> n\<lparr>nvti_oid := None\<rparr>))\<rparr>"

definition stale_nvti :: nvti where
  "stale_nvti = \<lparr>nvti_oid = None, nvti_name = ''Stale'', nvti_prefs = []\<rparr>"

definition stale_world :: "(string \<rightharpoonup> nvti) world" where
  "stale_world = demo_world\<lparr>nvticache := [''stale.nasl'' \<mapsto> stale_nvti]\<rparr>"

definition cached_world :: "(string \<rightharpoonup> nvti) world" where
  "cached_world = demo_world\<lparr>nvticache := [''services.nasl'' \<mapsto> services_nvti]\<rparr>"

definition readonly_world :: "(string \<rightharpoonup> nvti) world" where
  "readonly_world =
     demo_world\<lparr>files :=
       [''/plugins/services.nasl'' \<mapsto>
          \<lparr>st_atime = 10, st_mtime = 2000, utime_permitted = False\<rparr>]\<rparr>"

definition demo_nargs :: nasl_thread_args where
  "demo_nargs =
     \<lparr>nargs_hostname = ''192.0.2.7'',
      nargs_name = ''/plugins/services.nasl'',
      nargs_oid = Some ''1.3.6.1.4.1.25623.1.0.10330'',
      nargs_soc = 7\<rparr>"

section \<open>Each call, field by field\<close>

lemma emit_fields [simp]:
  "trace (emit e w) = trace w @ [e]"
  "prefs (emit e w) = prefs w"
  "nvticache (emit e w) = nvticache w"
  "files (emit e w) = files w"
  "niceness (emit e w) = niceness w"
  "may_raise_priority (emit e w) = may_raise_priority w"
  by (simp_all add: emit_def)

lemma new_events_append: "trace w' = trace w @ evs \<Longrightarrow> new_events w w' = evs"
  by (simp add: new_events_def)

subsection \<open>The preference loop\<close>

lemma prefs_add_nvti_from_fold:
  "prefs_add_nvti_from n i w =
     fold (\<lambda>np. prefs_set (pref_key n np) (nvtpref_default np)) (drop i (nvti_prefs n)) w"
proof (induction n i w rule: prefs_add_nvti_from.induct)
  case (1 n i w)
  show ?case
  proof (cases "i < nvti_pref_len n")
    case True
    then have d: "drop i (nvti_prefs n) = nvti_pref n i # drop (Suc i) (nvti_prefs n)"
      by (simp add: nvti_pref_len_def nvti_pref_def Cons_nth_drop_Suc)
    from True "1.IH" [OF True refl] d show ?thesis
      by (subst prefs_add_nvti_from.simps) (simp add: Let_def)
  next
    case False
    then show ?thesis
      by (subst prefs_add_nvti_from.simps) (simp add: nvti_pref_len_def)
  qed
qed

lemma fold_prefs_set:
  "fold (\<lambda>np. prefs_set (k np) (d np)) xs w =
     w\<lparr>prefs := prefs w ++ map_of (rev (map (\<lambda>np. (k np, d np)) xs)),
       trace := trace w @ map (\<lambda>np. Prefs_set (k np) (d np)) xs\<rparr>"
proof (induction xs arbitrary: w)
  case Nil
  show ?case by simp
next
  case (Cons a xs)
  have "fold (\<lambda>np. prefs_set (k np) (d np)) (a # xs) w =
          fold (\<lambda>np. prefs_set (k np) (d np)) xs (prefs_set (k a) (d a) w)"
    by simp
  also have "\<dots> = (prefs_set (k a) (d a) w)
      \<lparr>prefs := prefs (prefs_set (k a) (d a) w) ++ map_of (rev (map (\<lambda>np. (k np, d np)) xs)),
       trace := trace (prefs_set (k a) (d a) w) @ map (\<lambda>np. Prefs_set (k np) (d np)) xs\<rparr>"
    by (rule Cons.IH)
  also have "\<dots> = w\<lparr>prefs := prefs w ++ map_of (rev (map (\<lambda>np. (k np, d np)) (a # xs))),
       trace := trace w @ map (\<lambda>np. Prefs_set (k np) (d np)) (a # xs)\<rparr>"
    by (simp add: prefs_set_def emit_def map_add_upd_left)
  finally show ?case .
qed

lemma prefs_add_nvti_Some:
  "prefs_add_nvti (Some n) w =
     w\<lparr>prefs := prefs w ++ map_of (rev (pref_writes n)),
       trace := trace w @ map (\<lambda>(k, v). Prefs_set k v) (pref_writes n)\<rparr>"
  by (simp add: prefs_add_nvti_from_fold fold_prefs_set pref_writes_def comp_def)

declare prefs_add_nvti.simps(2) [simp del]

lemma prefs_add_nvti_fields:
  "trace (prefs_add_nvti (Some n) w) = trace w @ map (\<lambda>(k, v). Prefs_set k v) (pref_writes n)"
  "prefs (prefs_add_nvti (Some n) w) = prefs w ++ map_of (rev (pref_writes n))"
  "nvticache (prefs_add_nvti (Some n) w) = nvticache w"
  "files (prefs_add_nvti (Some n) w) = files w"
  "niceness (prefs_add_nvti (Some n) w) = niceness w"
  "may_raise_priority (prefs_add_nvti (Some n) w) = may_raise_priority w"
  by (simp_all add: prefs_add_nvti_Some)

lemma writes_append: "writes (xs @ ys) = writes xs @ writes ys"
  by (simp add: writes_def)

lemma writes_Prefs_set: "writes (map (\<lambda>(k, v). Prefs_set k v) kvs) = kvs"
  by (induction kvs) (auto simp: writes_def)

subsection \<open>Chomping\<close>

lemma g_strchomp_split:
  "g_strchomp s @ rev (takeWhile g_ascii_isspace (rev s)) = s"
proof -
  have "rev (takeWhile g_ascii_isspace (rev s) @ dropWhile g_ascii_isspace (rev s)) = s"
    by simp
  then show ?thesis
    unfolding g_strchomp_def rev_append .
qed

lemma g_strchomp_tail:
  "list_all g_ascii_isspace (drop (length (g_strchomp s)) s)"
proof -
  have "drop (length (g_strchomp s)) (g_strchomp s @ rev (takeWhile g_ascii_isspace (rev s)))
          = rev (takeWhile g_ascii_isspace (rev s))"
    by simp
  then have "drop (length (g_strchomp s)) s = rev (takeWhile g_ascii_isspace (rev s))"
    by (simp only: g_strchomp_split)
  moreover have "list_all g_ascii_isspace (rev (takeWhile g_ascii_isspace (rev s)))"
    by (simp add: list_all_iff) (meson set_takeWhileD)
  ultimately show ?thesis by simp
qed

lemma g_strchomp_prefix: "take (length (g_strchomp s)) s = g_strchomp s"
proof -
  have "take (length (g_strchomp s)) (g_strchomp s @ rev (takeWhile g_ascii_isspace (rev s)))
          = g_strchomp s"
    by simp
  then show ?thesis by (simp only: g_strchomp_split)
qed

lemma g_strchomp_last:
  "g_strchomp s = [] \<or> \<not> g_ascii_isspace (last (g_strchomp s))"
proof (cases "dropWhile g_ascii_isspace (rev s)")
  case Nil
  then show ?thesis by (simp add: g_strchomp_def)
next
  case (Cons c cs)
  then have "\<not> g_ascii_isspace c"
    by (metis hd_dropWhile list.sel(1) list.distinct(1))
  with Cons show ?thesis by (simp add: g_strchomp_def)
qed

lemma map_of_rev_last_wins:
  "i < length kvs \<Longrightarrow> \<forall>j. i < j \<and> j < length kvs \<longrightarrow> fst (kvs ! j) \<noteq> fst (kvs ! i) \<Longrightarrow>
     map_of (rev kvs) (fst (kvs ! i)) = Some (snd (kvs ! i))"
proof (induction kvs arbitrary: i rule: rev_induct)
  case Nil
  then show ?case by simp
next
  case (snoc kv kvs)
  show ?case
  proof (cases "i = length kvs")
    case True
    then show ?thesis by (cases kv) simp
  next
    case False
    with snoc.prems(1) have i: "i < length kvs" by simp
    from snoc.prems(2) i have "fst kv \<noteq> fst (kvs ! i)"
      by (metis length_append_singleton lessI nth_append nth_append_length)
    moreover have "\<forall>j. i < j \<and> j < length kvs \<longrightarrow> fst (kvs ! j) \<noteq> fst (kvs ! i)"
      using snoc.prems(2) i by (metis length_append_singleton less_Suc_eq nth_append)
    ultimately show ?thesis
      using snoc.IH [OF i] i by (cases kv) (auto simp: nth_append)
  qed
qed

section \<open>The preference merge\<close>

text \<open>
  C4. For every descriptor \<open>n\<close> that \<^verbatim>\<open>prefs_add_nvti\<close> is given, the calls it
  makes are exactly one \<^verbatim>\<open>prefs_set\<close> per declared preference, in the order of
  declaration, with the key \<open>name[type]:chomped\<close> and the default of the preference as
  value. The chomped name is a prefix of the name of the preference, what it leaves out is
  white space only, and it does not end in white space. The preferences afterwards are the
  old ones overwritten by these pairs, a later pair overwriting an earlier one with the
  same key: the default of a preference is what its key holds when no later preference has
  the same key, and keys that are not written keep their values. Nothing is left out for
  being a duplicate, and neither the cache nor the files change.
\<close>

theorem prefs_add_nvti_writes:
  fixes n :: nvti and w :: "'c world"
  defines "key \<equiv> \<lambda>np. nvti_name n @ ''['' @ nvtpref_type np @ '']:'' @ g_strchomp (nvtpref_name np)"
  defines "w' \<equiv> prefs_add_nvti (Some n) w"
  shows "new_events w w' = map (\<lambda>np. Prefs_set (key np) (nvtpref_default np)) (nvti_prefs n)
    \<and> (\<forall>np \<in> set (nvti_prefs n).
          take (length (g_strchomp (nvtpref_name np))) (nvtpref_name np) = g_strchomp (nvtpref_name np)
        \<and> list_all g_ascii_isspace (drop (length (g_strchomp (nvtpref_name np))) (nvtpref_name np))
        \<and> (g_strchomp (nvtpref_name np) = [] \<or> \<not> g_ascii_isspace (last (g_strchomp (nvtpref_name np)))))
    \<and> prefs w' = prefs w ++ map_of (rev (map (\<lambda>np. (key np, nvtpref_default np)) (nvti_prefs n)))
    \<and> (\<forall>i < length (nvti_prefs n).
          (\<forall>j. i < j \<and> j < length (nvti_prefs n) \<longrightarrow> key (nvti_prefs n ! j) \<noteq> key (nvti_prefs n ! i))
          \<longrightarrow> prefs w' (key (nvti_prefs n ! i)) = Some (nvtpref_default (nvti_prefs n ! i)))
    \<and> (\<forall>k. k \<notin> key ` set (nvti_prefs n) \<longrightarrow> prefs w' k = prefs w k)
    \<and> nvticache w' = nvticache w \<and> files w' = files w"
proof -
  have key: "key = pref_key n"
    by (simp add: key_def pref_key_def fun_eq_iff)
  have pw: "pref_writes n = map (\<lambda>np. (key np, nvtpref_default np)) (nvti_prefs n)"
    by (simp add: pref_writes_def key)
  have ev: "new_events w w' = map (\<lambda>np. Prefs_set (key np) (nvtpref_default np)) (nvti_prefs n)"
    unfolding w'_def
    by (rule new_events_append) (simp add: prefs_add_nvti_fields pw comp_def)
  have pr: "prefs w' = prefs w ++ map_of (rev (map (\<lambda>np. (key np, nvtpref_default np)) (nvti_prefs n)))"
    unfolding w'_def by (simp add: prefs_add_nvti_fields pw)
  have last_wins: "prefs w' (key (nvti_prefs n ! i)) = Some (nvtpref_default (nvti_prefs n ! i))"
    if i: "i < length (nvti_prefs n)"
      and later: "\<forall>j. i < j \<and> j < length (nvti_prefs n) \<longrightarrow> key (nvti_prefs n ! j) \<noteq> key (nvti_prefs n ! i)"
    for i
  proof -
    let ?kvs = "map (\<lambda>np. (key np, nvtpref_default np)) (nvti_prefs n)"
    have "map_of (rev ?kvs) (fst (?kvs ! i)) = Some (snd (?kvs ! i))"
      using i later by (intro map_of_rev_last_wins) simp_all
    then show ?thesis
      using i by (simp add: pr map_add_def)
  qed
  have untouched: "prefs w' k = prefs w k" if "k \<notin> key ` set (nvti_prefs n)" for k
  proof -
    have "map_of (rev (map (\<lambda>np. (key np, nvtpref_default np)) (nvti_prefs n))) k = None"
      using that by (simp add: map_of_eq_None_iff image_image)
    then show ?thesis by (simp add: pr map_add_def)
  qed
  have frame: "nvticache w' = nvticache w \<and> files w' = files w"
    unfolding w'_def by (simp add: prefs_add_nvti_fields)
  show ?thesis
    using ev pr last_wins untouched frame g_strchomp_prefix g_strchomp_tail g_strchomp_last
    by blast
qed


text \<open>
  The descriptor of the sample installation has two preferences whose names differ in
  trailing blanks only: both are written, under one key, and the later default stays.
\<close>

lemma chomp_demo:
  "g_strchomp ''Timeout :  '' = ''Timeout :''"
  "g_strchomp ''Parallel'' = ''Parallel''"
  "g_strchomp ''Timeout :'' = ''Timeout :''"
  by (simp_all add: g_strchomp_def g_ascii_isspace_def)

theorem prefs_add_nvti_writes_witness:
  "new_events demo_world (prefs_add_nvti (Some services_nvti) demo_world) =
     [Prefs_set ''Services[entry]:Timeout :'' ''5'',
      Prefs_set ''Services[checkbox]:Parallel'' ''no'',
      Prefs_set ''Services[entry]:Timeout :'' ''9'']
   \<and> prefs (prefs_add_nvti (Some services_nvti) demo_world) ''Services[entry]:Timeout :'' = Some ''9''
   \<and> prefs (prefs_add_nvti (Some services_nvti) demo_world) ''be_nice'' = Some ''yes''"
proof -
  note t = prefs_add_nvti_writes [of demo_world services_nvti]
  have ev: "new_events demo_world (prefs_add_nvti (Some services_nvti) demo_world) =
     [Prefs_set ''Services[entry]:Timeout :'' ''5'',
      Prefs_set ''Services[checkbox]:Parallel'' ''no'',
      Prefs_set ''Services[entry]:Timeout :'' ''9'']"
    using t by (simp add: services_nvti_def chomp_demo)
  from t have lw: "\<And>i. i < length (nvti_prefs services_nvti) \<Longrightarrow>
      (\<forall>j. i < j \<and> j < length (nvti_prefs services_nvti) \<longrightarrow>
         nvti_name services_nvti @ ''['' @ nvtpref_type (nvti_prefs services_nvti ! j) @ '']:'' @
           g_strchomp (nvtpref_name (nvti_prefs services_nvti ! j)) \<noteq>
         nvti_name services_nvti @ ''['' @ nvtpref_type (nvti_prefs services_nvti ! i) @ '']:'' @
           g_strchomp (nvtpref_name (nvti_prefs services_nvti ! i)))
      \<Longrightarrow> prefs (prefs_add_nvti (Some services_nvti) demo_world)
            (nvti_name services_nvti @ ''['' @ nvtpref_type (nvti_prefs services_nvti ! i) @ '']:'' @
               g_strchomp (nvtpref_name (nvti_prefs services_nvti ! i)))
          = Some (nvtpref_default (nvti_prefs services_nvti ! i))"
    by blast
  have last: "prefs (prefs_add_nvti (Some services_nvti) demo_world) ''Services[entry]:Timeout :'' = Some ''9''"
    using lw [of 2] by (simp add: services_nvti_def chomp_demo)
  from t have un: "\<And>k. k \<notin> (\<lambda>np. nvti_name services_nvti @ ''['' @ nvtpref_type np @ '']:'' @
       g_strchomp (nvtpref_name np)) ` set (nvti_prefs services_nvti)
     \<Longrightarrow> prefs (prefs_add_nvti (Some services_nvti) demo_world) k = prefs demo_world k"
    by blast
  have other: "prefs (prefs_add_nvti (Some services_nvti) demo_world) ''be_nice'' = Some ''yes''"
    using un [of "''be_nice''"] by (simp add: services_nvti_def chomp_demo demo_world_def)
  from ev last other show ?thesis by blast
qed

section \<open>The worker\<close>

lemma be_nice_trace:
  "trace (be_nice x w) = trace w @
     (if prefs_bool x (prefs w) ''be_nice''
      then (if may_raise_priority w then [Nice (- 5)]
            else [Nice (- 5), G_debug (Unable_to_renice EPERM)])
      else [])"
  by (simp add: be_nice_def nice_def prefs_get_bool_def g_debug_def EPERM_def Let_def)

lemma be_nice_niceness:
  "niceness (be_nice x w) =
     (if prefs_bool x (prefs w) ''be_nice'' \<and> may_raise_priority w
      then max (- 20) (min 19 (niceness w - 5)) else niceness w)"
  by (simp add: be_nice_def nice_def prefs_get_bool_def g_debug_def EPERM_def Let_def)

lemma be_nice_frame:
  "prefs (be_nice x w) = prefs w"
  "nvticache (be_nice x w) = nvticache w"
  "files (be_nice x w) = files w"
  "may_raise_priority (be_nice x w) = may_raise_priority w"
  by (simp_all add: be_nice_def nice_def prefs_get_bool_def g_debug_def EPERM_def Let_def)

lemma drop_privs_trace:
  "trace (drop_privs x name w) = trace w @
     (if prefs_bool x (prefs w) ''drop_privileges''
      then (if drop_privileges_res x \<noteq> GVM_DROP_PRIVILEGES_OK x
              \<and> drop_privileges_res x \<noteq> GVM_DROP_PRIVILEGES_FAIL_NOT_ROOT x
            then [Drop_privileges, G_debug (Failed_to_drop_privileges name)]
            else [Drop_privileges])
      else [])"
  by (simp add: drop_privs_def prefs_get_bool_def g_debug_def Let_def)

lemma drop_privs_frame:
  "prefs (drop_privs x name w) = prefs w"
  "nvticache (drop_privs x name w) = nvticache w"
  "files (drop_privs x name w) = files w"
  "niceness (drop_privs x name w) = niceness w"
  "may_raise_priority (drop_privs x name w) = may_raise_priority w"
  by (simp_all add: drop_privs_def prefs_get_bool_def g_debug_def Let_def)

lemma nvticache_reset_fields:
  "trace (nvticache_reset x w) = trace w @ [Nvticache_reset]"
  "prefs (nvticache_reset x w) = prefs w"
  "files (nvticache_reset x w) = files w"
  "niceness (nvticache_reset x w) = niceness w"
  "may_raise_priority (nvticache_reset x w) = may_raise_priority w"
  "nvticache (nvticache_reset x w) = cache_reset x (nvticache w)"
  by (simp_all add: nvticache_reset_def)

lemma exec_nasl_script_fields:
  "fst (exec_nasl_script x s oid m w) = interp_run x s oid m"
  "snd (exec_nasl_script x s oid m w) = emit (Exec_nasl_script s oid m) w"
  by (simp_all add: exec_nasl_script_def)

lemmas thread_simps = be_nice_trace be_nice_frame be_nice_niceness drop_privs_trace
  drop_privs_frame nvticache_reset_fields exec_nasl_script_fields prefs_get_bool_def

text \<open>The calls of the worker, in order.\<close>

lemma nasl_thread_trace:
  "trace (nasl_thread x nargs w) = trace w @
     [Nvticache_reset] @
     (if prefs_bool x (prefs w) ''be_nice''
      then (if may_raise_priority w then [Nice (- 5)]
            else [Nice (- 5), G_debug (Unable_to_renice EPERM)])
      else []) @
     [Pluginlaunch_child_cleanup, Kb_lnk_reset,
      Arg_set_value ''global_socket'' (nargs_soc nargs),
      Proctitle_set (nargs_hostname nargs) (nargs_name nargs)] @
     (if prefs_bool x (prefs w) ''drop_privileges''
      then (if drop_privileges_res x \<noteq> GVM_DROP_PRIVILEGES_OK x
              \<and> drop_privileges_res x \<noteq> GVM_DROP_PRIVILEGES_FAIL_NOT_ROOT x
            then [Drop_privileges, G_debug (Failed_to_drop_privileges (nargs_name nargs))]
            else [Drop_privileges])
      else []) @
     [Exec_nasl_script (nargs_name nargs) (nargs_oid nargs) (thread_mode x w),
      completion_marker x nargs]"
proof -
  have "trace (nasl_thread x nargs w) = trace w @
     [Nvticache_reset] @
     (if prefs_bool x (prefs w) ''be_nice''
      then (if may_raise_priority w then [Nice (- 5)]
            else [Nice (- 5), G_debug (Unable_to_renice EPERM)])
      else []) @
     [Pluginlaunch_child_cleanup] @ [Kb_lnk_reset] @
     [Arg_set_value ''global_socket'' (nargs_soc nargs)] @
     [Proctitle_set (nargs_hostname nargs) (nargs_name nargs)] @
     (if prefs_bool x (prefs w) ''drop_privileges''
      then (if drop_privileges_res x \<noteq> GVM_DROP_PRIVILEGES_OK x
              \<and> drop_privileges_res x \<noteq> GVM_DROP_PRIVILEGES_FAIL_NOT_ROOT x
            then [Drop_privileges, G_debug (Failed_to_drop_privileges (nargs_name nargs))]
            else [Drop_privileges])
      else []) @
     [Exec_nasl_script (nargs_name nargs) (nargs_oid nargs)
        (if prefs_bool x (prefs w) ''nasl_no_signature_check''
         then 0 OR NASL_ALWAYS_SIGNED x else 0)] @
     [Internal_send (nargs_soc nargs) None
        (INTERNAL_COMM_MSG_TYPE_CTRL x OR INTERNAL_COMM_CTRL_FINISHED x)]"
    unfolding nasl_thread_def Let_def case_prod_beta
    by (simp only: thread_simps emit_fields append_assoc)
  then show ?thesis by (simp add: thread_mode_def completion_marker_def prefs_get_bool_def)
qed

lemma nasl_thread_niceness:
  "niceness (nasl_thread x nargs w) =
     (if prefs_bool x (prefs w) ''be_nice'' \<and> may_raise_priority w
      then max (- 20) (min 19 (niceness w - 5)) else niceness w)"
  unfolding nasl_thread_def Let_def case_prod_beta
  by (simp only: thread_simps emit_fields)

lemma nasl_thread_frame:
  "prefs (nasl_thread x nargs w) = prefs w"
  "files (nasl_thread x nargs w) = files w"
  "nvticache (nasl_thread x nargs w) = cache_reset x (nvticache w)"
  unfolding nasl_thread_def Let_def case_prod_beta
  by (simp_all only: thread_simps emit_fields)

text \<open>
  C1. Whatever status the interpreter returns at line 270, the calls of one run of
  \<^verbatim>\<open>nasl_thread\<close> hold exactly one \<^verbatim>\<open>internal_send\<close>: on the socket of the
  launch, with no payload (\<^verbatim>\<open>NULL\<close>), with the control type and the FINISHED flag
  set. It is the last call of the run and comes right after the call of the interpreter.
\<close>

theorem nasl_thread_one_completion_marker:
  fixes x :: "'c extern" and status :: "string \<Rightarrow> string option \<Rightarrow> 32 word \<Rightarrow> int"
    and nargs :: nasl_thread_args and w :: "'c world"
  defines "evs \<equiv> new_events w (nasl_thread (x\<lparr>interp_run := status\<rparr>) nargs w)"
  defines "flags \<equiv> INTERNAL_COMM_MSG_TYPE_CTRL x OR INTERNAL_COMM_CTRL_FINISHED x"
  shows "filter is_internal_send evs = [Internal_send (nargs_soc nargs) None flags]
    \<and> flags AND INTERNAL_COMM_CTRL_FINISHED x = INTERNAL_COMM_CTRL_FINISHED x
    \<and> drop (length evs - 2) evs =
        [Exec_nasl_script (nargs_name nargs) (nargs_oid nargs) (thread_mode x w),
         Internal_send (nargs_soc nargs) None flags]"
proof -
  have "flags AND INTERNAL_COMM_CTRL_FINISHED x = INTERNAL_COMM_CTRL_FINISHED x"
    unfolding flags_def by (simp add: bit_eq_iff bit_and_iff bit_or_iff)
  moreover have "filter is_internal_send evs = [Internal_send (nargs_soc nargs) None flags]"
    unfolding evs_def flags_def
    by (simp add: new_events_def nasl_thread_trace completion_marker_def)
  moreover have "drop (length evs - 2) evs =
        [Exec_nasl_script (nargs_name nargs) (nargs_oid nargs) (thread_mode x w),
         Internal_send (nargs_soc nargs) None flags]"
    unfolding evs_def flags_def
    by (simp add: new_events_def nasl_thread_trace completion_marker_def thread_mode_def
          prefs_get_bool_def)
  ultimately show ?thesis by blast
qed

text \<open>On the sample installation, with an interpreter that fails and with one that
  succeeds.\<close>

theorem nasl_thread_one_completion_marker_witness:
  "filter is_internal_send
     (new_events demo_world (nasl_thread (demo_extern\<lparr>interp_run := \<lambda>s oid m. - 1\<rparr>) demo_nargs demo_world))
     = [Internal_send 7 None 65537]
   \<and> filter is_internal_send
     (new_events demo_world (nasl_thread (demo_extern\<lparr>interp_run := \<lambda>s oid m. 0\<rparr>) demo_nargs demo_world))
     = [Internal_send 7 None 65537]"
  using nasl_thread_one_completion_marker
      [where w = demo_world and x = demo_extern and status = "\<lambda>s oid m. - 1" and nargs = demo_nargs]
    nasl_thread_one_completion_marker
      [where w = demo_world and x = demo_extern and status = "\<lambda>s oid m. 0" and nargs = demo_nargs]
  by (simp add: demo_extern_def demo_nargs_def)

text \<open>
  C7. When the preference \<^verbatim>\<open>drop_privileges\<close> is set, the worker calls
  \<^verbatim>\<open>drop_privileges\<close>. The result \<^verbatim>\<open>GVM_DROP_PRIVILEGES_FAIL_NOT_ROOT\<close>
  logs nothing; the message \<^emph>\<open>Failed to drop privileges\<close> is logged exactly when the
  result is neither that nor \<^verbatim>\<open>GVM_DROP_PRIVILEGES_OK\<close>. A failure is only logged:
  without that message the calls are those of a run in which the drop succeeded, and the
  preferences, files, cache and nice value end the same. In every case the run ends with
  the call of the interpreter followed by the completion marker.
\<close>

theorem nasl_thread_drop_privileges:
  fixes x :: "'c extern" and nargs :: nasl_thread_args and w :: "'c world"
  defines "evs \<equiv> new_events w (nasl_thread x nargs w)"
  defines "failed \<equiv> G_debug (Failed_to_drop_privileges (nargs_name nargs))"
  defines "granted \<equiv> x\<lparr>drop_privileges_res := GVM_DROP_PRIVILEGES_OK x\<rparr>"
  assumes requested: "prefs_get_bool x ''drop_privileges'' w"
  shows "Drop_privileges \<in> set evs
    \<and> (drop_privileges_res x = GVM_DROP_PRIVILEGES_FAIL_NOT_ROOT x \<longrightarrow> failed \<notin> set evs)
    \<and> (failed \<in> set evs) =
        (drop_privileges_res x \<noteq> GVM_DROP_PRIVILEGES_OK x
         \<and> drop_privileges_res x \<noteq> GVM_DROP_PRIVILEGES_FAIL_NOT_ROOT x)
    \<and> filter (\<lambda>e. e \<noteq> failed) evs = new_events w (nasl_thread granted nargs w)
    \<and> prefs (nasl_thread x nargs w) = prefs (nasl_thread granted nargs w)
    \<and> files (nasl_thread x nargs w) = files (nasl_thread granted nargs w)
    \<and> nvticache (nasl_thread x nargs w) = nvticache (nasl_thread granted nargs w)
    \<and> niceness (nasl_thread x nargs w) = niceness (nasl_thread granted nargs w)
    \<and> drop (length evs - 2) evs =
        [Exec_nasl_script (nargs_name nargs) (nargs_oid nargs) (thread_mode x w),
         completion_marker x nargs]"
proof -
  from requested have req: "prefs_bool x (prefs w) ''drop_privileges''"
    by (simp add: prefs_get_bool_def)
  have a: "Drop_privileges \<in> set evs"
    unfolding evs_def using req by (simp add: new_events_def nasl_thread_trace)
  have b: "(failed \<in> set evs) =
        (drop_privileges_res x \<noteq> GVM_DROP_PRIVILEGES_OK x
         \<and> drop_privileges_res x \<noteq> GVM_DROP_PRIVILEGES_FAIL_NOT_ROOT x)"
    unfolding evs_def failed_def using req
    by (simp add: new_events_def nasl_thread_trace completion_marker_def)
  have c: "filter (\<lambda>e. e \<noteq> failed) evs = new_events w (nasl_thread granted nargs w)"
    unfolding evs_def failed_def granted_def using req
    by (simp add: new_events_def nasl_thread_trace completion_marker_def thread_mode_def
          prefs_get_bool_def)
  have d: "prefs (nasl_thread x nargs w) = prefs (nasl_thread granted nargs w)"
    "files (nasl_thread x nargs w) = files (nasl_thread granted nargs w)"
    "nvticache (nasl_thread x nargs w) = nvticache (nasl_thread granted nargs w)"
    "niceness (nasl_thread x nargs w) = niceness (nasl_thread granted nargs w)"
    unfolding granted_def by (simp_all add: nasl_thread_frame nasl_thread_niceness)
  have e: "drop (length evs - 2) evs =
        [Exec_nasl_script (nargs_name nargs) (nargs_oid nargs) (thread_mode x w),
         completion_marker x nargs]"
    unfolding evs_def by (simp add: new_events_def nasl_thread_trace)
  from a b c d e show ?thesis by blast
qed

text \<open>On the sample installation: the drop reports \<^emph>\<open>not root\<close> (1), then another
  failure (2).\<close>

theorem nasl_thread_drop_privileges_witness:
  "prefs_get_bool demo_extern ''drop_privileges'' demo_world
   \<and> G_debug (Failed_to_drop_privileges ''/plugins/services.nasl'')
       \<notin> set (new_events demo_world
                (nasl_thread (demo_extern\<lparr>drop_privileges_res := 1\<rparr>) demo_nargs demo_world))
   \<and> G_debug (Failed_to_drop_privileges ''/plugins/services.nasl'')
       \<in> set (new_events demo_world
                (nasl_thread (demo_extern\<lparr>drop_privileges_res := 2\<rparr>) demo_nargs demo_world))
   \<and> drop (length (new_events demo_world
                (nasl_thread (demo_extern\<lparr>drop_privileges_res := 2\<rparr>) demo_nargs demo_world)) - 2)
        (new_events demo_world
                (nasl_thread (demo_extern\<lparr>drop_privileges_res := 2\<rparr>) demo_nargs demo_world))
       = [Exec_nasl_script ''/plugins/services.nasl'' (Some ''1.3.6.1.4.1.25623.1.0.10330'') 0,
          Internal_send 7 None 65537]"
proof -
  have req: "prefs_get_bool demo_extern ''drop_privileges'' demo_world"
    by (simp add: prefs_get_bool_def demo_extern_def demo_world_def)
  then have r1: "prefs_get_bool (demo_extern\<lparr>drop_privileges_res := 1\<rparr>) ''drop_privileges'' demo_world"
    and r2: "prefs_get_bool (demo_extern\<lparr>drop_privileges_res := 2\<rparr>) ''drop_privileges'' demo_world"
    by (simp_all add: prefs_get_bool_def)
  show ?thesis
    using req nasl_thread_drop_privileges [OF r1, of demo_nargs]
      nasl_thread_drop_privileges [OF r2, of demo_nargs]
    by (simp add: thread_mode_def prefs_get_bool_def completion_marker_def demo_extern_def
          demo_world_def demo_nargs_def)
qed

text \<open>
  The nice value of the worker never grows: \<^verbatim>\<open>nice (-5)\<close> asks for a lower nice
  value, that is a higher priority.
\<close>

lemma nasl_thread_never_lowers_priority:
  "- 20 \<le> niceness w \<Longrightarrow> niceness (nasl_thread x nargs w) \<le> niceness w"
  by (simp add: nasl_thread_niceness min_def max_def)

text \<open>
  C8. With \<^verbatim>\<open>be_nice\<close> set, a worker that starts at nice value 0 and may raise its
  priority ends at nice value -5: its scheduling priority is raised, not lowered. The same
  worker without that right stays at 0; the failure is logged (\<^verbatim>\<open>EPERM\<close>) and the
  run goes on to the interpreter and the completion marker.
\<close>

theorem nasl_thread_be_nice_raises_priority:
  "prefs_get_bool demo_extern ''be_nice'' demo_world
   \<and> niceness demo_world = 0
   \<and> niceness (nasl_thread demo_extern demo_nargs demo_world) = - 5
   \<and> new_events demo_world (nasl_thread demo_extern demo_nargs demo_world) =
       [Nvticache_reset, Nice (- 5), Pluginlaunch_child_cleanup, Kb_lnk_reset,
        Arg_set_value ''global_socket'' 7,
        Proctitle_set ''192.0.2.7'' ''/plugins/services.nasl'',
        Drop_privileges,
        Exec_nasl_script ''/plugins/services.nasl'' (Some ''1.3.6.1.4.1.25623.1.0.10330'') 0,
        Internal_send 7 None 65537]
   \<and> niceness (nasl_thread demo_extern demo_nargs (demo_world\<lparr>may_raise_priority := False\<rparr>)) = 0
   \<and> new_events (demo_world\<lparr>may_raise_priority := False\<rparr>)
        (nasl_thread demo_extern demo_nargs (demo_world\<lparr>may_raise_priority := False\<rparr>)) =
       [Nvticache_reset, Nice (- 5), G_debug (Unable_to_renice 1),
        Pluginlaunch_child_cleanup, Kb_lnk_reset,
        Arg_set_value ''global_socket'' 7,
        Proctitle_set ''192.0.2.7'' ''/plugins/services.nasl'',
        Drop_privileges,
        Exec_nasl_script ''/plugins/services.nasl'' (Some ''1.3.6.1.4.1.25623.1.0.10330'') 0,
        Internal_send 7 None 65537]"
  by (simp add: new_events_def nasl_thread_trace nasl_thread_niceness thread_mode_def
        completion_marker_def prefs_get_bool_def EPERM_def demo_extern_def demo_world_def
        demo_nargs_def)

section \<open>The loader, path by path\<close>

lemma stat_read_emit [simp]: "stat_read x p (emit e w) = stat_read x p w"
  by (simp add: stat_read_def)

lemma utime_ok_emit [simp]: "utime_ok p (emit e w) = utime_ok p w"
  by (simp add: utime_ok_def)

lemma fix_timestamp_trace:
  "trace (fix_timestamp x p w) = trace w @
     (if stat_read x p w > time_NULL x - 1
      then [Stat p, Utime p (time_NULL x - 1) (time_NULL x - 1),
            G_debug (if utime_ok p w then Timestamp_fixed p else Timestamp_not_fixed p)]
      else [Stat p])"
  by (simp add: fix_timestamp_def stat_mtime_def utime_def stat_read_def utime_ok_def g_debug_def
        Let_def split: option.split)

lemma fix_timestamp_files:
  "files (fix_timestamp x p w) =
     (case files w p of
        Some f \<Rightarrow> if st_mtime f > time_NULL x - 1 \<and> utime_permitted f
                  then (files w)(p \<mapsto> f\<lparr>st_atime := time_NULL x - 1, st_mtime := time_NULL x - 1\<rparr>)
                  else files w
      | None \<Rightarrow> files w)"
  by (simp add: fix_timestamp_def stat_mtime_def utime_def g_debug_def
        Let_def split: option.split)

lemma fix_timestamp_frame:
  "prefs (fix_timestamp x p w) = prefs w"
  "nvticache (fix_timestamp x p w) = nvticache w"
  "niceness (fix_timestamp x p w) = niceness w"
  "may_raise_priority (fix_timestamp x p w) = may_raise_priority w"
  by (simp_all add: fix_timestamp_def stat_mtime_def utime_def g_debug_def
        Let_def split: option.split)

lemma new_events_fix_timestamp:
  "new_events w (fix_timestamp x p w) =
     (if stat_read x p w > time_NULL x - 1
      then [Stat p, Utime p (time_NULL x - 1) (time_NULL x - 1),
            G_debug (if utime_ok p w then Timestamp_fixed p else Timestamp_not_fixed p)]
      else [Stat p])"
  by (rule new_events_append) (rule fix_timestamp_trace)

lemma nvticache_add_fields:
  "trace (nvticache_add x n name w) = trace w @ [Nvticache_add n name]"
  "nvticache (nvticache_add x n name w) = cache_add x (nvticache w) n name"
  "prefs (nvticache_add x n name w) = prefs w"
  "files (nvticache_add x n name w) = files w"
  by (simp_all add: nvticache_add_def)

lemma tail_None:
  "nasl_plugin_add_tail name None w = (- 1, emit (G_debug (Failed_to_load name)) w)"
  by (simp add: nasl_plugin_add_tail_def g_debug_def)

lemma tail_no_oid:
  "nvti_oid n = None \<Longrightarrow>
     nasl_plugin_add_tail name (Some n) w = (- 1, emit (G_debug (Failed_to_load_no_OID name)) w)"
  by (simp add: nasl_plugin_add_tail_def g_debug_def)

lemma tail_ok:
  "nvti_oid n \<noteq> None \<Longrightarrow>
     nasl_plugin_add_tail name (Some n) w = (0, prefs_add_nvti (Some n) w)"
  by (simp add: nasl_plugin_add_tail_def)

lemma load_hit:
  "cache_get x (nvticache w) name = Some n \<Longrightarrow>
     nasl_plugin_add x folder name w =
       nasl_plugin_add_tail name (Some n) (emit (Nvticache_get name) w)"
  by (simp add: nasl_plugin_add_def nvticache_get_def Let_def)

lemma load_miss:
  "cache_get x (nvticache w) name = None \<Longrightarrow>
     nasl_plugin_add x folder name w =
       nasl_plugin_add_miss x (fullname_of x folder name) name (descr_mode x w)
         (emit (Nvticache_get name) w)"
  by (simp add: nasl_plugin_add_def nvticache_get_def Let_def fullname_of_def descr_mode_def)

lemma miss_parse_failed:
  "fst (interp_descr x p m nvti_new) < 0 \<Longrightarrow>
     nasl_plugin_add_miss x p name m w =
       (- 1, emit (G_debug (Could_not_be_loaded p)) (emit (Exec_nasl_script p None m) w))"
  by (simp add: nasl_plugin_add_miss_def exec_nasl_script_descr_def g_debug_def Let_def
        case_prod_beta)

lemma miss_parsed_no_oid:
  "\<not> fst (interp_descr x p m nvti_new) < 0 \<Longrightarrow>
   nvti_oid (snd (interp_descr x p m nvti_new)) = None \<Longrightarrow>
     nasl_plugin_add_miss x p name m w =
       (- 1, emit (G_debug (Failed_to_load name)) (emit (G_debug (Not_added_to_cache name))
               (fix_timestamp x p (emit (Exec_nasl_script p None m) w))))"
  by (simp add: nasl_plugin_add_miss_def exec_nasl_script_descr_def g_debug_def Let_def
        case_prod_beta tail_None)

lemma miss_parsed_oid:
  "\<not> fst (interp_descr x p m nvti_new) < 0 \<Longrightarrow>
   nvti_oid (snd (interp_descr x p m nvti_new)) \<noteq> None \<Longrightarrow>
     nasl_plugin_add_miss x p name m w =
       nasl_plugin_add_tail name
         (cache_get x (cache_add x (nvticache w) (snd (interp_descr x p m nvti_new)) name) name)
         (emit (Nvticache_get name)
            (nvticache_add x (snd (interp_descr x p m nvti_new)) name
               (fix_timestamp x p (emit (Exec_nasl_script p None m) w))))"
  by (simp add: nasl_plugin_add_miss_def exec_nasl_script_descr_def nvticache_get_def
        nvticache_add_def fix_timestamp_frame Let_def case_prod_beta)

lemmas loader_fields = prefs_add_nvti_fields fix_timestamp_trace fix_timestamp_frame
  nvticache_add_fields

lemma no_add_in_prefs: "Nvticache_add n nm \<notin> (\<lambda>(k, v). Prefs_set k v) ` S"
  by auto

lemma writes_simps [simp]:
  "writes [] = []"
  "writes (Prefs_set k v # evs) = (k, v) # writes evs"
  "writes (Nvticache_get name # evs) = writes evs"
  "writes (Nvticache_add n name # evs) = writes evs"
  "writes (Exec_nasl_script s oid md # evs) = writes evs"
  "writes (Stat s # evs) = writes evs"
  "writes (Utime s a b # evs) = writes evs"
  "writes (G_debug msg # evs) = writes evs"
  by (simp_all add: writes_def)

text \<open>The result of the branch of lines 159-163, before the tail.\<close>

lemma load_miss_oid:
  assumes miss: "cache_get x (nvticache w) name = None"
    and parsed: "\<not> fst (interp_descr x (fullname_of x folder name) (descr_mode x w) nvti_new) < 0"
    and oid: "nvti_oid (snd (interp_descr x (fullname_of x folder name) (descr_mode x w) nvti_new)) \<noteq> None"
  shows "nasl_plugin_add x folder name w =
     nasl_plugin_add_tail name
       (cache_get x (cache_add x (nvticache w)
          (snd (interp_descr x (fullname_of x folder name) (descr_mode x w) nvti_new)) name) name)
       (emit (Nvticache_get name)
          (nvticache_add x (snd (interp_descr x (fullname_of x folder name) (descr_mode x w) nvti_new)) name
             (fix_timestamp x (fullname_of x folder name)
                (emit (Exec_nasl_script (fullname_of x folder name) None (descr_mode x w))
                   (emit (Nvticache_get name) w)))))"
  by (simp add: load_miss [OF miss] miss_parsed_oid [OF parsed oid])

lemma load_miss_no_oid:
  assumes miss: "cache_get x (nvticache w) name = None"
    and parsed: "\<not> fst (interp_descr x (fullname_of x folder name) (descr_mode x w) nvti_new) < 0"
    and oid: "nvti_oid (snd (interp_descr x (fullname_of x folder name) (descr_mode x w) nvti_new)) = None"
  shows "nasl_plugin_add x folder name w =
     (- 1, emit (G_debug (Failed_to_load name)) (emit (G_debug (Not_added_to_cache name))
        (fix_timestamp x (fullname_of x folder name)
           (emit (Exec_nasl_script (fullname_of x folder name) None (descr_mode x w))
              (emit (Nvticache_get name) w)))))"
  by (simp add: load_miss [OF miss] miss_parsed_no_oid [OF parsed oid])

lemma load_miss_failed:
  assumes miss: "cache_get x (nvticache w) name = None"
    and failed: "fst (interp_descr x (fullname_of x folder name) (descr_mode x w) nvti_new) < 0"
  shows "nasl_plugin_add x folder name w =
     (- 1, emit (G_debug (Could_not_be_loaded (fullname_of x folder name)))
        (emit (Exec_nasl_script (fullname_of x folder name) None (descr_mode x w))
           (emit (Nvticache_get name) w)))"
  by (simp add: load_miss [OF miss] miss_parse_failed [OF failed])

lemma load_hit_no_oid:
  "cache_get x (nvticache w) name = Some n \<Longrightarrow> nvti_oid n = None \<Longrightarrow>
     nasl_plugin_add x folder name w =
       (- 1, emit (G_debug (Failed_to_load_no_OID name)) (emit (Nvticache_get name) w))"
  by (simp add: load_hit tail_no_oid)

lemma load_hit_ok:
  "cache_get x (nvticache w) name = Some n \<Longrightarrow> nvti_oid n \<noteq> None \<Longrightarrow>
     nasl_plugin_add x folder name w =
       (0, prefs_add_nvti (Some n) (emit (Nvticache_get name) w))"
  by (simp add: load_hit tail_ok)

lemmas tail_cases = tail_None tail_no_oid tail_ok

text \<open>Every load, whichever way it goes.\<close>

lemma load_outcome:
  fixes x :: "'c extern" and folder name :: string and w :: "'c world"
  defines "res \<equiv> nasl_plugin_add x folder name w"
  defines "evs \<equiv> new_events w (snd res)"
  defines "parse \<equiv> interp_descr x (fullname_of x folder name) (descr_mode x w) nvti_new"
  defines "refetched \<equiv> cache_get x (cache_add x (nvticache w) (snd parse) name) name"
  shows "(\<forall>n nm. Nvticache_add n nm \<in> set evs \<longrightarrow> nvti_oid n \<noteq> None)
    \<and> (\<forall>n. cache_get x (nvticache w) name = Some n \<and> nvti_oid n = None \<longrightarrow>
          fst res = - 1 \<and> nvticache (snd res) = nvticache w \<and> prefs (snd res) = prefs w
          \<and> writes evs = [])
    \<and> (cache_get x (nvticache w) name = None \<and> nvti_oid (snd parse) = None \<longrightarrow>
          fst res = - 1 \<and> nvticache (snd res) = nvticache w \<and> prefs (snd res) = prefs w
          \<and> writes evs = [])
    \<and> (\<forall>n. cache_get x (nvticache w) name = None \<and> \<not> fst parse < 0 \<and> nvti_oid (snd parse) \<noteq> None
            \<and> refetched = Some n \<and> nvti_oid n = None \<longrightarrow>
          fst res = - 1 \<and> prefs (snd res) = prefs w \<and> writes evs = [])
    \<and> (fst res = 0 \<longrightarrow>
          (\<exists>n. cache_get x (nvticache (snd res)) name = Some n \<and> nvti_oid n \<noteq> None
             \<and> writes evs = pref_writes n))
    \<and> (fst res \<noteq> 0 \<longrightarrow> fst res = - 1 \<and> prefs (snd res) = prefs w \<and> writes evs = [])"
proof (cases "cache_get x (nvticache w) name")
  case (Some n)
  show ?thesis
  proof (cases "nvti_oid n = None")
    case True
    have r: "res = (- 1, emit (G_debug (Failed_to_load_no_OID name)) (emit (Nvticache_get name) w))"
      unfolding res_def by (rule load_hit_no_oid [OF Some True])
    have e: "evs = [Nvticache_get name, G_debug (Failed_to_load_no_OID name)]"
      unfolding evs_def by (rule new_events_append) (simp add: r)
    show ?thesis using Some True by (simp add: r e)
  next
    case False
    have r: "res = (0, prefs_add_nvti (Some n) (emit (Nvticache_get name) w))"
      unfolding res_def by (rule load_hit_ok [OF Some False])
    have e: "evs = Nvticache_get name # map (\<lambda>(k, v). Prefs_set k v) (pref_writes n)"
      unfolding evs_def by (rule new_events_append) (simp add: r loader_fields)
    show ?thesis using Some False
      by (auto simp: r e loader_fields no_add_in_prefs writes_Prefs_set)
  qed
next
  case None
  show ?thesis
  proof (cases "fst parse < 0")
    case True
    have r: "res = (- 1, emit (G_debug (Could_not_be_loaded (fullname_of x folder name)))
        (emit (Exec_nasl_script (fullname_of x folder name) None (descr_mode x w))
           (emit (Nvticache_get name) w)))"
      unfolding res_def using True by (intro load_miss_failed [OF None]) (simp add: parse_def)
    have e: "evs = [Nvticache_get name,
        Exec_nasl_script (fullname_of x folder name) None (descr_mode x w),
        G_debug (Could_not_be_loaded (fullname_of x folder name))]"
      unfolding evs_def by (rule new_events_append) (simp add: r)
    show ?thesis using None True by (simp add: r e)
  next
    case parsed: False
    define ts where "ts = new_events w (fix_timestamp x (fullname_of x folder name) w)"
    have ts_add: "Nvticache_add n nm \<notin> set ts" for n nm
      by (simp add: ts_def new_events_fix_timestamp)
    have ts_writes: "writes (ts @ evs') = writes evs'" for evs'
      by (simp add: ts_def new_events_fix_timestamp)
    show ?thesis
    proof (cases "nvti_oid (snd parse) = None")
      case True
      have r: "res = (- 1, emit (G_debug (Failed_to_load name)) (emit (G_debug (Not_added_to_cache name))
        (fix_timestamp x (fullname_of x folder name)
           (emit (Exec_nasl_script (fullname_of x folder name) None (descr_mode x w))
              (emit (Nvticache_get name) w)))))"
        unfolding res_def using parsed True
        by (intro load_miss_no_oid [OF None]) (simp_all add: parse_def)
      have e: "evs = [Nvticache_get name,
          Exec_nasl_script (fullname_of x folder name) None (descr_mode x w)] @ ts @
          [G_debug (Not_added_to_cache name), G_debug (Failed_to_load name)]"
        unfolding evs_def
        by (rule new_events_append) (simp add: r loader_fields ts_def new_events_fix_timestamp)
      show ?thesis using None parsed True
        by (auto simp: r e loader_fields ts_add ts_writes)
    next
      case oid: False
      have r: "res = nasl_plugin_add_tail name refetched
         (emit (Nvticache_get name)
            (nvticache_add x (snd parse) name
               (fix_timestamp x (fullname_of x folder name)
                  (emit (Exec_nasl_script (fullname_of x folder name) None (descr_mode x w))
                     (emit (Nvticache_get name) w)))))"
        unfolding res_def refetched_def parse_def using parsed oid
        by (intro load_miss_oid [OF None]) (simp_all add: parse_def)
      show ?thesis
      proof (cases refetched)
        case rNone: None
        have e: "evs = [Nvticache_get name,
            Exec_nasl_script (fullname_of x folder name) None (descr_mode x w)] @ ts @
            [Nvticache_add (snd parse) name, Nvticache_get name, G_debug (Failed_to_load name)]"
          unfolding evs_def
          by (rule new_events_append)
            (simp add: r rNone tail_None loader_fields ts_def new_events_fix_timestamp)
        show ?thesis using None parsed oid rNone
          by (auto simp: r e tail_None loader_fields ts_add ts_writes)
      next
        case (Some n')
        show ?thesis
        proof (cases "nvti_oid n' = None")
          case True
          have e: "evs = [Nvticache_get name,
              Exec_nasl_script (fullname_of x folder name) None (descr_mode x w)] @ ts @
              [Nvticache_add (snd parse) name, Nvticache_get name,
               G_debug (Failed_to_load_no_OID name)]"
            unfolding evs_def
            by (rule new_events_append)
              (simp add: r Some tail_no_oid [OF True] loader_fields ts_def new_events_fix_timestamp)
          show ?thesis using None parsed oid Some True
            by (auto simp: r e tail_no_oid [OF True] loader_fields ts_add ts_writes)
        next
          case False
          have e: "evs = [Nvticache_get name,
              Exec_nasl_script (fullname_of x folder name) None (descr_mode x w)] @ ts @
              [Nvticache_add (snd parse) name, Nvticache_get name] @
              map (\<lambda>(k, v). Prefs_set k v) (pref_writes n')"
            unfolding evs_def
            by (rule new_events_append)
              (simp add: r Some tail_ok [OF False] loader_fields ts_def new_events_fix_timestamp)
          have c: "cache_get x (nvticache (snd res)) name = Some n'"
            using Some by (simp add: r tail_ok [OF False] loader_fields refetched_def)
          show ?thesis using None parsed oid Some False c
            by (auto simp: e ts_add ts_writes no_add_in_prefs writes_Prefs_set r
                  tail_ok [OF False] loader_fields)
        qed
      qed
    qed
  qed
qed

text \<open>After a successful parse: the time stamp is looked at before anything else.\<close>

lemma load_miss_parsed:
  assumes miss: "cache_get x (nvticache w) name = None"
    and parsed: "\<not> fst (interp_descr x (fullname_of x folder name) (descr_mode x w) nvti_new) < 0"
  shows "files (snd (nasl_plugin_add x folder name w)) =
           files (fix_timestamp x (fullname_of x folder name) w)"
    and "take (2 + length (new_events w (fix_timestamp x (fullname_of x folder name) w)))
           (new_events w (snd (nasl_plugin_add x folder name w))) =
         [Nvticache_get name, Exec_nasl_script (fullname_of x folder name) None (descr_mode x w)]
           @ new_events w (fix_timestamp x (fullname_of x folder name) w)"
proof -
  let ?p = "fullname_of x folder name" and ?m = "descr_mode x w"
  let ?parse = "interp_descr x ?p ?m nvti_new"
  let ?w2 = "fix_timestamp x ?p (emit (Exec_nasl_script ?p None ?m) (emit (Nvticache_get name) w))"
  let ?ts = "new_events w (fix_timestamp x ?p w)"
  have f2: "files ?w2 = files (fix_timestamp x ?p w)"
    by (simp add: fix_timestamp_files split: option.split)
  have t2: "trace ?w2 = trace w @ [Nvticache_get name, Exec_nasl_script ?p None ?m] @ ?ts"
    by (simp add: fix_timestamp_trace new_events_fix_timestamp)
  have "\<exists>r rest w'. nasl_plugin_add x folder name w = (r, w') \<and> files w' = files ?w2
          \<and> trace w' = trace ?w2 @ rest"
  proof (cases "nvti_oid (snd ?parse) = None")
    case True
    show ?thesis
      by (simp add: load_miss_no_oid [OF miss parsed True])
  next
    case False
    show ?thesis
      by (cases "cache_get x (cache_add x (nvticache w) (snd ?parse) name) name")
        (auto simp: load_miss_oid [OF miss parsed False] nasl_plugin_add_tail_def g_debug_def
           loader_fields)
  qed
  then obtain r rest w' where r: "nasl_plugin_add x folder name w = (r, w')"
    and f: "files w' = files ?w2" and t: "trace w' = trace ?w2 @ rest"
    by blast
  show "files (snd (nasl_plugin_add x folder name w)) = files (fix_timestamp x ?p w)"
    by (simp add: r f f2)
  have "new_events w w' = [Nvticache_get name, Exec_nasl_script ?p None ?m] @ ?ts @ rest"
    by (rule new_events_append) (simp add: t t2)
  then show "take (2 + length ?ts) (new_events w (snd (nasl_plugin_add x folder name w))) =
         [Nvticache_get name, Exec_nasl_script ?p None ?m] @ ?ts"
    by (simp add: r)
qed

lemma no_exec_in_prefs: "filter is_exec (map (\<lambda>(k, v). Prefs_set k v) kvs) = []"
  by (induction kvs) auto

lemma descr_mode_files [simp]: "descr_mode x (w\<lparr>files := F\<rparr>) = descr_mode x w"
  by (simp add: descr_mode_def prefs_get_bool_def)

text \<open>The status of a load, the cache and the preferences it leaves do not depend on the
  files.\<close>

lemma load_files_irrelevant:
  "fst (nasl_plugin_add x folder name (w\<lparr>files := F\<rparr>)) = fst (nasl_plugin_add x folder name w)
   \<and> nvticache (snd (nasl_plugin_add x folder name (w\<lparr>files := F\<rparr>))) =
       nvticache (snd (nasl_plugin_add x folder name w))
   \<and> prefs (snd (nasl_plugin_add x folder name (w\<lparr>files := F\<rparr>))) =
       prefs (snd (nasl_plugin_add x folder name w))"
proof (cases "cache_get x (nvticache w) name")
  case (Some n)
  then have h: "cache_get x (nvticache (w\<lparr>files := F\<rparr>)) name = Some n"
    by simp
  show ?thesis
    by (cases "nvti_oid n = None")
      (simp_all add: load_hit_no_oid [OF Some] load_hit_no_oid [OF h]
         load_hit_ok [OF Some] load_hit_ok [OF h] loader_fields)
next
  case None
  then have miss': "cache_get x (nvticache (w\<lparr>files := F\<rparr>)) name = None"
    by simp
  let ?parse = "interp_descr x (fullname_of x folder name) (descr_mode x w) nvti_new"
  show ?thesis
  proof (cases "fst ?parse < 0")
    case True
    then have t': "fst (interp_descr x (fullname_of x folder name)
        (descr_mode x (w\<lparr>files := F\<rparr>)) nvti_new) < 0"
      by simp
    show ?thesis
      by (simp add: load_miss_failed [OF None True] load_miss_failed [OF miss' t'])
  next
    case False
    then have p': "\<not> fst (interp_descr x (fullname_of x folder name)
        (descr_mode x (w\<lparr>files := F\<rparr>)) nvti_new) < 0"
      by simp
    show ?thesis
    proof (cases "nvti_oid (snd ?parse) = None")
      case True
      then have o': "nvti_oid (snd (interp_descr x (fullname_of x folder name)
          (descr_mode x (w\<lparr>files := F\<rparr>)) nvti_new)) = None"
        by simp
      show ?thesis
        by (simp add: load_miss_no_oid [OF None False True] load_miss_no_oid [OF miss' p' o']
              loader_fields)
    next
      case oid: False
      then have o': "nvti_oid (snd (interp_descr x (fullname_of x folder name)
          (descr_mode x (w\<lparr>files := F\<rparr>)) nvti_new)) \<noteq> None"
        by simp
      show ?thesis
        by (cases "cache_get x (cache_add x (nvticache w) (snd ?parse) name) name")
          (simp_all add: load_miss_oid [OF None False oid] load_miss_oid [OF miss' p' o']
             nasl_plugin_add_tail_def g_debug_def loader_fields)
    qed
  qed
qed

section \<open>The sample installation\<close>

lemma demo_fullname:
  "fullname_of demo_extern ''/plugins'' ''services.nasl'' = ''/plugins/services.nasl''"
  "fullname_of demo_extern ''/plugins'' ''exit_early.nasl'' = ''/plugins/exit_early.nasl''"
  "fullname_of demo_extern ''/plugins'' ''broken.nasl'' = ''/plugins/broken.nasl''"
  "fullname_of demo_extern ''/plugins'' ''stale.nasl'' = ''/plugins/stale.nasl''"
  by (simp_all add: fullname_of_def snprintf_fullname_def demo_extern_def)

lemma demo_fullname_upd [simp]:
  "fullname_of (demo_extern\<lparr>cache_add := a\<rparr>) folder name = fullname_of demo_extern folder name"
  by (simp add: fullname_of_def)

lemma demo_mode:
  "descr_mode demo_extern demo_world = 1"
  "descr_mode demo_extern stale_world = 1"
  "descr_mode demo_extern cached_world = 1"
  "descr_mode demo_extern readonly_world = 1"
  by (simp_all add: descr_mode_def prefs_get_bool_def demo_extern_def demo_world_def
        stale_world_def cached_world_def readonly_world_def)

lemma demo_mode_upd [simp]:
  "descr_mode (demo_extern\<lparr>cache_add := a\<rparr>) w = descr_mode demo_extern w"
  by (simp add: descr_mode_def prefs_get_bool_def)

lemma demo_parse:
  "interp_descr demo_extern ''/plugins/services.nasl'' md n = (0, services_nvti)"
  "interp_descr demo_extern ''/plugins/exit_early.nasl'' md n = (0, n\<lparr>nvti_name := ''Exit early''\<rparr>)"
  "interp_descr demo_extern ''/plugins/broken.nasl'' md n = (- 1, n)"
  by (simp_all add: demo_extern_def demo_interp_def)

lemma demo_cache:
  "cache_get demo_extern (nvticache demo_world) name = None"
  "cache_get demo_extern (nvticache readonly_world) name = None"
  "cache_get demo_extern (nvticache stale_world) ''stale.nasl'' = Some stale_nvti"
  "cache_get demo_extern (nvticache cached_world) ''services.nasl'' = Some services_nvti"
  by (simp_all add: demo_extern_def demo_world_def stale_world_def cached_world_def
        readonly_world_def)

lemma demo_pref_writes:
  "pref_writes services_nvti =
     [(''Services[entry]:Timeout :'', ''5''),
      (''Services[checkbox]:Parallel'', ''no''),
      (''Services[entry]:Timeout :'', ''9'')]"
  by (simp add: pref_writes_def pref_key_def services_nvti_def chomp_demo)

lemma demo_oid:
  "nvti_oid services_nvti = Some ''1.3.6.1.4.1.25623.1.0.10330''"
  "nvti_oid stale_nvti = None"
  "nvti_oid (nvti_new\<lparr>nvti_name := ''Exit early''\<rparr>) = None"
  by (simp_all add: services_nvti_def stale_nvti_def nvti_new_def)

lemma lossy_facts:
  "cache_get lossy_extern (nvticache demo_world) ''services.nasl'' = None"
  "fullname_of lossy_extern ''/plugins'' ''services.nasl'' = ''/plugins/services.nasl''"
  "descr_mode lossy_extern demo_world = 1"
  "interp_descr lossy_extern ''/plugins/services.nasl'' 1 nvti_new = (0, services_nvti)"
  "cache_get lossy_extern
     (cache_add lossy_extern (nvticache demo_world) services_nvti ''services.nasl'') ''services.nasl''
     = Some (services_nvti\<lparr>nvti_prefs := take 1 (nvti_prefs services_nvti)\<rparr>)"
  by (simp_all add: lossy_extern_def demo_cache demo_fullname demo_mode demo_parse)
    (simp add: demo_extern_def)

lemma lossy_pref_writes:
  "pref_writes (services_nvti\<lparr>nvti_prefs := take (Suc 0) (nvti_prefs services_nvti)\<rparr>) =
     [(''Services[entry]:Timeout :'', ''5'')]"
  by (simp add: pref_writes_def pref_key_def services_nvti_def chomp_demo)

lemma demo_files:
  "files demo_world ''/plugins/services.nasl'' =
     Some \<lparr>st_atime = 10, st_mtime = 2000, utime_permitted = True\<rparr>"
  "files readonly_world ''/plugins/services.nasl'' =
     Some \<lparr>st_atime = 10, st_mtime = 2000, utime_permitted = False\<rparr>"
  "time_NULL demo_extern = 1000"
  by (simp_all add: demo_world_def readonly_world_def demo_extern_def)

lemma demo_first_load:
  "fst (nasl_plugin_add demo_extern ''/plugins'' ''services.nasl'' demo_world) = 0"
proof -
  have ok: "\<not> fst (interp_descr demo_extern (fullname_of demo_extern ''/plugins'' ''services.nasl'')
      (descr_mode demo_extern demo_world) nvti_new) < 0"
    by (simp add: demo_fullname demo_mode demo_parse)
  have oid: "nvti_oid (snd (interp_descr demo_extern (fullname_of demo_extern ''/plugins'' ''services.nasl'')
      (descr_mode demo_extern demo_world) nvti_new)) \<noteq> None"
    by (simp add: demo_fullname demo_mode demo_parse demo_oid)
  have re: "cache_get demo_extern (cache_add demo_extern (nvticache demo_world)
      (snd (interp_descr demo_extern (fullname_of demo_extern ''/plugins'' ''services.nasl'')
         (descr_mode demo_extern demo_world) nvti_new)) ''services.nasl'') ''services.nasl''
      = Some services_nvti"
    by (simp add: demo_fullname demo_mode demo_parse) (simp add: demo_extern_def)
  have o: "nvti_oid services_nvti \<noteq> None"
    by (simp add: demo_oid)
  show ?thesis
    by (simp only: load_miss_oid [OF demo_cache(1) ok oid] re tail_ok [OF o] fst_conv)
qed

lemma demo_first_load_events:
  "new_events demo_world (snd (nasl_plugin_add demo_extern ''/plugins'' ''services.nasl'' demo_world)) =
     [Nvticache_get ''services.nasl'',
      Exec_nasl_script ''/plugins/services.nasl'' None 1,
      Stat ''/plugins/services.nasl'',
      Utime ''/plugins/services.nasl'' 999 999,
      G_debug (Timestamp_fixed ''/plugins/services.nasl''),
      Nvticache_add services_nvti ''services.nasl'',
      Nvticache_get ''services.nasl'',
      Prefs_set ''Services[entry]:Timeout :'' ''5'',
      Prefs_set ''Services[checkbox]:Parallel'' ''no'',
      Prefs_set ''Services[entry]:Timeout :'' ''9'']"
proof -
  have ok: "\<not> fst (interp_descr demo_extern (fullname_of demo_extern ''/plugins'' ''services.nasl'')
      (descr_mode demo_extern demo_world) nvti_new) < 0"
    by (simp add: demo_fullname demo_mode demo_parse)
  have oid: "nvti_oid (snd (interp_descr demo_extern (fullname_of demo_extern ''/plugins'' ''services.nasl'')
      (descr_mode demo_extern demo_world) nvti_new)) \<noteq> None"
    by (simp add: demo_fullname demo_mode demo_parse demo_oid)
  have re: "cache_get demo_extern (cache_add demo_extern (nvticache demo_world)
      services_nvti ''services.nasl'') ''services.nasl'' = Some services_nvti"
    by (simp add: demo_extern_def)
  have o: "nvti_oid services_nvti \<noteq> None"
    by (simp add: demo_oid)
  have sr: "stat_read demo_extern ''/plugins/services.nasl'' demo_world = 2000"
    "utime_ok ''/plugins/services.nasl'' demo_world"
    by (simp_all add: stat_read_def utime_ok_def demo_files)
  have r: "nasl_plugin_add demo_extern ''/plugins'' ''services.nasl'' demo_world =
      (0, prefs_add_nvti (Some services_nvti)
        (emit (Nvticache_get ''services.nasl'')
          (nvticache_add demo_extern services_nvti ''services.nasl''
            (fix_timestamp demo_extern ''/plugins/services.nasl''
              (emit (Exec_nasl_script ''/plugins/services.nasl'' None 1)
                (emit (Nvticache_get ''services.nasl'') demo_world))))))"
    by (simp add: load_miss_oid [OF demo_cache(1) ok oid] demo_fullname demo_mode demo_parse re
          tail_ok [OF o])
  show ?thesis
    by (rule new_events_append)
      (simp add: r loader_fields sr demo_files demo_pref_writes)
qed

section \<open>Loading a plugin\<close>

text \<open>
  C6. When the cache has no entry for the name and the interpreter, run in description
  mode on \<open>folder/name\<close>, returns a negative status, \<^verbatim>\<open>nasl_plugin_add\<close> returns -1.
  The cache, the time stamps of the files and the preferences are as before: the calls of
  the load are the cache lookup, the interpreter and one log message, so nothing is added
  to the cache, no file is looked at and no preference is set. (The descriptor the
  interpreter worked on is dropped with \<^verbatim>\<open>arg_free_all\<close>; the model has no heap.)
\<close>

theorem nasl_plugin_add_parse_failure:
  fixes x :: "'c extern" and folder name :: string and w :: "'c world"
  defines "p \<equiv> fullname_of x folder name"
  defines "m \<equiv> descr_mode x w"
  defines "res \<equiv> nasl_plugin_add x folder name w"
  assumes miss: "cache_get x (nvticache w) name = None"
    and failed: "fst (interp_descr x p m nvti_new) < 0"
  shows "fst res = - 1
    \<and> nvticache (snd res) = nvticache w
    \<and> files (snd res) = files w
    \<and> prefs (snd res) = prefs w
    \<and> new_events w (snd res) =
        [Nvticache_get name, Exec_nasl_script p None m, G_debug (Could_not_be_loaded p)]"
proof -
  have "res = (- 1, emit (G_debug (Could_not_be_loaded p))
                 (emit (Exec_nasl_script p None m) (emit (Nvticache_get name) w)))"
    unfolding res_def using failed
    by (simp only: load_miss [OF miss] p_def [symmetric] m_def [symmetric] miss_parse_failed)
  then show ?thesis
    by (simp add: new_events_def)
qed

text \<open>On the sample installation, with the script that fails.\<close>

theorem nasl_plugin_add_parse_failure_witness:
  "fst (nasl_plugin_add demo_extern ''/plugins'' ''broken.nasl'' demo_world) = - 1
   \<and> nvticache (snd (nasl_plugin_add demo_extern ''/plugins'' ''broken.nasl'' demo_world)) = Map.empty
   \<and> files (snd (nasl_plugin_add demo_extern ''/plugins'' ''broken.nasl'' demo_world)) = files demo_world
   \<and> prefs (snd (nasl_plugin_add demo_extern ''/plugins'' ''broken.nasl'' demo_world)) = prefs demo_world
   \<and> new_events demo_world (snd (nasl_plugin_add demo_extern ''/plugins'' ''broken.nasl'' demo_world)) =
       [Nvticache_get ''broken.nasl'', Exec_nasl_script ''/plugins/broken.nasl'' None 1,
        G_debug (Could_not_be_loaded ''/plugins/broken.nasl'')]"
proof -
  have miss: "cache_get demo_extern (nvticache demo_world) ''broken.nasl'' = None"
    by (rule demo_cache)
  have failed: "fst (interp_descr demo_extern (fullname_of demo_extern ''/plugins'' ''broken.nasl'')
      (descr_mode demo_extern demo_world) nvti_new) < 0"
    by (simp add: demo_fullname demo_mode demo_parse)
  have "nvticache demo_world = Map.empty"
    by (simp add: demo_world_def)
  with nasl_plugin_add_parse_failure [OF miss failed] show ?thesis
    by (simp add: demo_fullname demo_mode)
qed

text \<open>
  C10. When the cache lookup of line 124 finds a descriptor, the load leaves the cache and
  the files as they are. It calls neither the interpreter nor \<^verbatim>\<open>stat\<close>,
  \<^verbatim>\<open>utime\<close> or \<^verbatim>\<open>nvticache_add\<close>: after the lookup it either logs that the
  descriptor has no OID or sets the preferences of the descriptor, and nothing else.
\<close>

theorem nasl_plugin_add_hit_frame:
  fixes x :: "'c extern" and folder name :: string and w :: "'c world"
  defines "res \<equiv> nasl_plugin_add x folder name w"
  defines "evs \<equiv> new_events w (snd res)"
  assumes hit: "cache_get x (nvticache w) name = Some n"
  shows "nvticache (snd res) = nvticache w
    \<and> files (snd res) = files w
    \<and> filter is_exec evs = []
    \<and> filter writes_cache_or_file evs = []
    \<and> evs = Nvticache_get name #
        (if nvti_oid n = None then [G_debug (Failed_to_load_no_OID name)]
         else map (\<lambda>(k, v). Prefs_set k v) (pref_writes n))"
proof (cases "nvti_oid n = None")
  case True
  have "res = (- 1, emit (G_debug (Failed_to_load_no_OID name)) (emit (Nvticache_get name) w))"
    unfolding res_def by (simp only: load_hit [OF hit] tail_no_oid [OF True])
  with True show ?thesis
    by (simp add: evs_def new_events_def)
next
  case False
  have r: "res = (0, prefs_add_nvti (Some n) (emit (Nvticache_get name) w))"
    unfolding res_def by (simp only: load_hit [OF hit] tail_ok [OF False])
  have e: "evs = Nvticache_get name # map (\<lambda>(k, v). Prefs_set k v) (pref_writes n)"
    unfolding evs_def by (rule new_events_append) (simp add: r loader_fields)
  have "filter is_exec (map (\<lambda>(k, v). Prefs_set k v) kvs) = []"
    and "filter writes_cache_or_file (map (\<lambda>(k, v). Prefs_set k v) kvs) = []" for kvs
    by (induction kvs) auto
  with False e r show ?thesis
    by (auto simp: loader_fields)
qed

text \<open>On the sample installation, with the sample descriptor in the cache.\<close>

theorem nasl_plugin_add_hit_frame_witness:
  "nvticache (snd (nasl_plugin_add demo_extern ''/plugins'' ''services.nasl'' cached_world)) =
     nvticache cached_world
   \<and> files (snd (nasl_plugin_add demo_extern ''/plugins'' ''services.nasl'' cached_world)) =
     files cached_world
   \<and> new_events cached_world (snd (nasl_plugin_add demo_extern ''/plugins'' ''services.nasl'' cached_world)) =
     [Nvticache_get ''services.nasl'',
      Prefs_set ''Services[entry]:Timeout :'' ''5'',
      Prefs_set ''Services[checkbox]:Parallel'' ''no'',
      Prefs_set ''Services[entry]:Timeout :'' ''9'']"
  using nasl_plugin_add_hit_frame [OF demo_cache(4), of "''/plugins''"]
  by (simp add: demo_oid demo_pref_writes)

text \<open>
  C2. For every load: whatever \<^verbatim>\<open>nvticache_add\<close> is called with has an OID. A
  descriptor without OID that the cache lookup returns makes the load return -1 with the
  cache and the preferences unchanged and no preference written; so does a parsed
  descriptor without OID; and so does a descriptor without OID that the cache returns when
  it is fetched again after the commit (the preferences are unchanged, nothing is
  written). A load that returns 0 has merged the preferences of a descriptor that the
  cache holds under the name and that has an OID; a load that does not return 0 returns
  -1, leaves the preferences as they were and writes none. (Releasing the descriptor,
  \<^verbatim>\<open>nvti_free\<close>, is not modelled: the model has no heap.)
\<close>

theorem nasl_plugin_add_null_oid:
  fixes x :: "'c extern" and folder name :: string and w :: "'c world"
  defines "res \<equiv> nasl_plugin_add x folder name w"
  defines "evs \<equiv> new_events w (snd res)"
  defines "parse \<equiv> interp_descr x (fullname_of x folder name) (descr_mode x w) nvti_new"
  defines "refetched \<equiv> cache_get x (cache_add x (nvticache w) (snd parse) name) name"
  shows "(\<forall>n nm. Nvticache_add n nm \<in> set evs \<longrightarrow> nvti_oid n \<noteq> None)
    \<and> (\<forall>n. cache_get x (nvticache w) name = Some n \<and> nvti_oid n = None \<longrightarrow>
          fst res = - 1 \<and> nvticache (snd res) = nvticache w \<and> prefs (snd res) = prefs w
          \<and> writes evs = [])
    \<and> (cache_get x (nvticache w) name = None \<and> nvti_oid (snd parse) = None \<longrightarrow>
          fst res = - 1 \<and> nvticache (snd res) = nvticache w \<and> prefs (snd res) = prefs w
          \<and> writes evs = [])
    \<and> (\<forall>n. cache_get x (nvticache w) name = None \<and> \<not> fst parse < 0 \<and> nvti_oid (snd parse) \<noteq> None
            \<and> refetched = Some n \<and> nvti_oid n = None \<longrightarrow>
          fst res = - 1 \<and> prefs (snd res) = prefs w \<and> writes evs = [])
    \<and> (fst res = 0 \<longrightarrow>
          (\<exists>n. cache_get x (nvticache (snd res)) name = Some n \<and> nvti_oid n \<noteq> None
             \<and> writes evs = pref_writes n))
    \<and> (fst res \<noteq> 0 \<longrightarrow> fst res = - 1 \<and> prefs (snd res) = prefs w \<and> writes evs = [])"
  unfolding res_def evs_def parse_def refetched_def by (rule load_outcome)

text \<open>
  On the sample installation: a cache that holds a descriptor without OID, the script
  that stops before it declares an OID, and a cache store that loses the OID.
\<close>

theorem nasl_plugin_add_null_oid_witness:
  "fst (nasl_plugin_add demo_extern ''/plugins'' ''stale.nasl'' stale_world) = - 1
   \<and> prefs (snd (nasl_plugin_add demo_extern ''/plugins'' ''stale.nasl'' stale_world)) = prefs stale_world
   \<and> fst (nasl_plugin_add demo_extern ''/plugins'' ''exit_early.nasl'' demo_world) = - 1
   \<and> nvticache (snd (nasl_plugin_add demo_extern ''/plugins'' ''exit_early.nasl'' demo_world)) =
       nvticache demo_world
   \<and> fst (nasl_plugin_add stripping_extern ''/plugins'' ''services.nasl'' demo_world) = - 1
   \<and> writes (new_events demo_world
        (snd (nasl_plugin_add stripping_extern ''/plugins'' ''services.nasl'' demo_world))) = []
   \<and> Nvticache_add services_nvti ''services.nasl''
       \<in> set (new_events demo_world
                (snd (nasl_plugin_add demo_extern ''/plugins'' ''services.nasl'' demo_world)))
   \<and> nvti_oid services_nvti \<noteq> None
   \<and> fst (nasl_plugin_add demo_extern ''/plugins'' ''services.nasl'' demo_world) = 0
   \<and> (\<exists>n. cache_get demo_extern
            (nvticache (snd (nasl_plugin_add demo_extern ''/plugins'' ''services.nasl'' demo_world)))
            ''services.nasl'' = Some n
          \<and> nvti_oid n \<noteq> None
          \<and> writes (new_events demo_world
                (snd (nasl_plugin_add demo_extern ''/plugins'' ''services.nasl'' demo_world))) =
              pref_writes n)"
proof -
  note d = nasl_plugin_add_null_oid
    [where x = demo_extern and folder = "''/plugins''" and name = "''services.nasl''" and w = demo_world,
     THEN conjunct1, rule_format, of services_nvti "''services.nasl''"]
  note e = nasl_plugin_add_null_oid
    [where x = demo_extern and folder = "''/plugins''" and name = "''services.nasl''" and w = demo_world,
     THEN conjunct2, THEN conjunct2, THEN conjunct2, THEN conjunct2, THEN conjunct1, rule_format]
  have hd: "Nvticache_add services_nvti ''services.nasl''
       \<in> set (new_events demo_world
                (snd (nasl_plugin_add demo_extern ''/plugins'' ''services.nasl'' demo_world)))"
    by (simp add: demo_first_load_events)
  note a = nasl_plugin_add_null_oid
    [where x = demo_extern and folder = "''/plugins''" and name = "''stale.nasl''" and w = stale_world,
     THEN conjunct2, THEN conjunct1, rule_format, of stale_nvti]
  note b = nasl_plugin_add_null_oid
    [where x = demo_extern and folder = "''/plugins''" and name = "''exit_early.nasl''" and w = demo_world,
     THEN conjunct2, THEN conjunct2, THEN conjunct1, rule_format]
  note c = nasl_plugin_add_null_oid
    [where x = stripping_extern and folder = "''/plugins''" and name = "''services.nasl''" and w = demo_world,
     THEN conjunct2, THEN conjunct2, THEN conjunct2, THEN conjunct1, rule_format,
     of "services_nvti\<lparr>nvti_oid := None\<rparr>"]
  have ha: "cache_get demo_extern (nvticache stale_world) ''stale.nasl'' = Some stale_nvti
      \<and> nvti_oid stale_nvti = None"
    by (simp add: demo_cache demo_oid)
  have hb: "cache_get demo_extern (nvticache demo_world) ''exit_early.nasl'' = None
      \<and> nvti_oid (snd (interp_descr demo_extern (fullname_of demo_extern ''/plugins'' ''exit_early.nasl'')
            (descr_mode demo_extern demo_world) nvti_new)) = None"
    by (simp add: demo_cache demo_fullname demo_mode demo_parse demo_oid)
  have fm: "fullname_of stripping_extern ''/plugins'' ''services.nasl'' = ''/plugins/services.nasl''"
    "descr_mode stripping_extern demo_world = 1"
    by (simp_all add: stripping_extern_def demo_fullname demo_mode)
  have parse: "interp_descr stripping_extern ''/plugins/services.nasl'' 1 nvti_new = (0, services_nvti)"
    by (simp add: stripping_extern_def demo_parse)
  have strip: "cache_get stripping_extern
      (cache_add stripping_extern (nvticache demo_world) services_nvti ''services.nasl'') ''services.nasl''
      = Some (services_nvti\<lparr>nvti_oid := None\<rparr>)"
    by (simp add: stripping_extern_def demo_extern_def)
  have miss: "cache_get stripping_extern (nvticache demo_world) ''services.nasl'' = None"
    by (simp add: stripping_extern_def demo_extern_def demo_world_def)
  have hc: "cache_get stripping_extern (nvticache demo_world) ''services.nasl'' = None
      \<and> \<not> fst (interp_descr stripping_extern (fullname_of stripping_extern ''/plugins'' ''services.nasl'')
            (descr_mode stripping_extern demo_world) nvti_new) < 0
      \<and> nvti_oid (snd (interp_descr stripping_extern (fullname_of stripping_extern ''/plugins'' ''services.nasl'')
            (descr_mode stripping_extern demo_world) nvti_new)) \<noteq> None
      \<and> cache_get stripping_extern
            (cache_add stripping_extern (nvticache demo_world)
              (snd (interp_descr stripping_extern (fullname_of stripping_extern ''/plugins'' ''services.nasl'')
                 (descr_mode stripping_extern demo_world) nvti_new)) ''services.nasl'') ''services.nasl''
          = Some (services_nvti\<lparr>nvti_oid := None\<rparr>)
      \<and> nvti_oid (services_nvti\<lparr>nvti_oid := None\<rparr>) = None"
    by (simp add: fm parse strip miss demo_oid)
  from a [OF ha] b [OF hb] c [OF hc] hd d [OF hd] demo_first_load e [OF demo_first_load]
  show ?thesis
    by blast
qed

text \<open>
  C9. When the cache has no entry for the name, the parse succeeds and the parsed
  descriptor has an OID, the load calls \<^verbatim>\<open>nvticache_add\<close> with the parsed descriptor
  under the name and then \<^verbatim>\<open>nvticache_get\<close> with the name, in this order, after the
  time stamp has been dealt with. The cache afterwards is the one the commit produced.
  What follows is decided by the descriptor fetched again, not by the parsed one: the
  status is 0 exactly when the fetch returns a descriptor with an OID, and the pairs
  written to the preferences are those of the fetched descriptor.
\<close>

theorem nasl_plugin_add_uses_refetched:
  fixes x :: "'c extern" and folder name :: string and w :: "'c world"
  defines "p \<equiv> fullname_of x folder name"
  defines "m \<equiv> descr_mode x w"
  defines "parsed \<equiv> snd (interp_descr x p m nvti_new)"
  defines "refetched \<equiv> cache_get x (cache_add x (nvticache w) parsed name) name"
  defines "res \<equiv> nasl_plugin_add x folder name w"
  assumes miss: "cache_get x (nvticache w) name = None"
    and ok: "\<not> fst (interp_descr x p m nvti_new) < 0"
    and oid: "nvti_oid parsed \<noteq> None"
  shows "nvticache (snd res) = cache_add x (nvticache w) parsed name
    \<and> new_events w (snd res) =
        [Nvticache_get name, Exec_nasl_script p None m] @ new_events w (fix_timestamp x p w) @
        [Nvticache_add parsed name, Nvticache_get name] @
        (case refetched of
           None \<Rightarrow> [G_debug (Failed_to_load name)]
         | Some n \<Rightarrow>
             if nvti_oid n = None then [G_debug (Failed_to_load_no_OID name)]
             else map (\<lambda>(k, v). Prefs_set k v) (pref_writes n))
    \<and> fst res = (case refetched of None \<Rightarrow> - 1 | Some n \<Rightarrow> if nvti_oid n = None then - 1 else 0)
    \<and> writes (new_events w (snd res)) =
        (case refetched of None \<Rightarrow> [] | Some n \<Rightarrow> if nvti_oid n = None then [] else pref_writes n)
    \<and> prefs (snd res) =
        (case refetched of
           None \<Rightarrow> prefs w
         | Some n \<Rightarrow> if nvti_oid n = None then prefs w else prefs w ++ map_of (rev (pref_writes n)))"
proof -
  define ts where "ts = new_events w (fix_timestamp x p w)"
  have ts_writes: "writes (ts @ evs') = writes evs'" for evs'
    by (simp add: ts_def new_events_fix_timestamp)
  have r: "res = nasl_plugin_add_tail name refetched
         (emit (Nvticache_get name)
            (nvticache_add x parsed name
               (fix_timestamp x p (emit (Exec_nasl_script p None m) (emit (Nvticache_get name) w)))))"
    unfolding res_def refetched_def parsed_def p_def m_def
    using ok oid by (intro load_miss_oid [OF miss]) (simp_all add: parsed_def p_def m_def)
  show ?thesis
  proof (cases refetched)
    case None
    have e: "new_events w (snd res) = [Nvticache_get name, Exec_nasl_script p None m] @ ts @
        [Nvticache_add parsed name, Nvticache_get name, G_debug (Failed_to_load name)]"
      by (rule new_events_append)
        (simp add: r None tail_None loader_fields ts_def new_events_fix_timestamp)
    show ?thesis
      using None by (simp add: e ts_writes ts_def [symmetric]) (simp add: r tail_None loader_fields)
  next
    case (Some n)
    show ?thesis
    proof (cases "nvti_oid n = None")
      case True
      have e: "new_events w (snd res) = [Nvticache_get name, Exec_nasl_script p None m] @ ts @
          [Nvticache_add parsed name, Nvticache_get name, G_debug (Failed_to_load_no_OID name)]"
        by (rule new_events_append)
          (simp add: r Some tail_no_oid [OF True] loader_fields ts_def new_events_fix_timestamp)
      show ?thesis
        using Some True by (simp add: e ts_writes ts_def [symmetric])
          (simp add: r tail_no_oid [OF True] loader_fields)
    next
      case False
      have e: "new_events w (snd res) = [Nvticache_get name, Exec_nasl_script p None m] @ ts @
          [Nvticache_add parsed name, Nvticache_get name] @
          map (\<lambda>(k, v). Prefs_set k v) (pref_writes n)"
        by (rule new_events_append)
          (simp add: r Some tail_ok [OF False] loader_fields ts_def new_events_fix_timestamp)
      show ?thesis
        using Some False by (simp add: e ts_writes ts_def [symmetric] writes_Prefs_set)
          (auto simp: r tail_ok [OF False] loader_fields)
    qed
  qed
qed

text \<open>
  On the sample installation with the cache store that keeps only the first preference:
  the parsed descriptor declares three preferences, one is merged.
\<close>

theorem nasl_plugin_add_uses_refetched_witness:
  "pref_writes services_nvti =
     [(''Services[entry]:Timeout :'', ''5''),
      (''Services[checkbox]:Parallel'', ''no''),
      (''Services[entry]:Timeout :'', ''9'')]
   \<and> fst (nasl_plugin_add lossy_extern ''/plugins'' ''services.nasl'' demo_world) = 0
   \<and> writes (new_events demo_world
        (snd (nasl_plugin_add lossy_extern ''/plugins'' ''services.nasl'' demo_world))) =
       [(''Services[entry]:Timeout :'', ''5'')]"
proof -
  have miss: "cache_get lossy_extern (nvticache demo_world) ''services.nasl'' = None"
    by (rule lossy_facts)
  have ok: "\<not> fst (interp_descr lossy_extern (fullname_of lossy_extern ''/plugins'' ''services.nasl'')
      (descr_mode lossy_extern demo_world) nvti_new) < 0"
    by (simp add: lossy_facts)
  have oid: "nvti_oid (snd (interp_descr lossy_extern (fullname_of lossy_extern ''/plugins'' ''services.nasl'')
      (descr_mode lossy_extern demo_world) nvti_new)) \<noteq> None"
    by (simp add: lossy_facts demo_oid)
  note t = nasl_plugin_add_uses_refetched [OF miss ok oid]
  from t [THEN conjunct2, THEN conjunct2, THEN conjunct1]
  have s: "fst (nasl_plugin_add lossy_extern ''/plugins'' ''services.nasl'' demo_world) = 0"
    by (simp add: lossy_facts demo_oid)
  from t [THEN conjunct2, THEN conjunct2, THEN conjunct2, THEN conjunct1]
  have ws: "writes (new_events demo_world
        (snd (nasl_plugin_add lossy_extern ''/plugins'' ''services.nasl'' demo_world))) =
       [(''Services[entry]:Timeout :'', ''5'')]"
    by (simp add: lossy_facts demo_oid lossy_pref_writes)
  from s ws demo_pref_writes show ?thesis by blast
qed

text \<open>
  C5. When the cache has no entry for the name, the parse succeeds, the plugin file exists
  and its modification time is after \<^verbatim>\<open>time (NULL)\<close>, the load calls \<^verbatim>\<open>utime\<close>
  on the file with access and modification time \<open>now - 1\<close>. If the call succeeds, both
  times of the file are \<open>now - 1\<close> after the load, so the modification time is not after
  \<open>now\<close>, and the fix is logged. If it fails, the failure is logged and the files are
  unchanged. No other file changes. In both cases the status of the load, the cache and
  the preferences it leaves are those of the load in which the rewrite succeeds.
\<close>

theorem nasl_plugin_add_future_mtime:
  fixes x :: "'c extern" and folder name :: string and w :: "'c world" and f :: file_stat
  defines "p \<equiv> fullname_of x folder name"
  defines "now \<equiv> time_NULL x"
  defines "res \<equiv> nasl_plugin_add x folder name w"
  defines "evs \<equiv> new_events w (snd res)"
  defines "granted \<equiv>
    nasl_plugin_add x folder name (w\<lparr>files := (files w)(p \<mapsto> f\<lparr>utime_permitted := True\<rparr>)\<rparr>)"
  assumes miss: "cache_get x (nvticache w) name = None"
    and parsed: "\<not> fst (interp_descr x p (descr_mode x w) nvti_new) < 0"
    and exists: "files w p = Some f"
    and future: "now < st_mtime f"
  shows "Utime p (now - 1) (now - 1) \<in> set evs
    \<and> (utime_permitted f \<longrightarrow>
          files (snd res) p = Some (f\<lparr>st_atime := now - 1, st_mtime := now - 1\<rparr>)
          \<and> (case files (snd res) p of Some f' \<Rightarrow> st_mtime f' \<le> now | None \<Rightarrow> False)
          \<and> G_debug (Timestamp_fixed p) \<in> set evs)
    \<and> (\<not> utime_permitted f \<longrightarrow>
          files (snd res) = files w \<and> G_debug (Timestamp_not_fixed p) \<in> set evs)
    \<and> (\<forall>q. q \<noteq> p \<longrightarrow> files (snd res) q = files w q)
    \<and> fst res = fst granted
    \<and> nvticache (snd res) = nvticache (snd granted)
    \<and> prefs (snd res) = prefs (snd granted)"
proof -
  define ts where "ts = new_events w (fix_timestamp x p w)"
  from exists future have ts: "ts = [Stat p, Utime p (now - 1) (now - 1),
      G_debug (if utime_permitted f then Timestamp_fixed p else Timestamp_not_fixed p)]"
    by (simp add: ts_def new_events_fix_timestamp stat_read_def utime_ok_def now_def)
  have "take (2 + length ts) evs = [Nvticache_get name, Exec_nasl_script p None (descr_mode x w)] @ ts"
    unfolding evs_def res_def ts_def p_def
    using parsed by (intro load_miss_parsed(2) [OF miss]) (simp add: p_def)
  then have "set ts \<subseteq> set (take (2 + length ts) evs)"
    by auto
  then have sub: "set ts \<subseteq> set evs"
    using set_take_subset by fastforce
  have fl: "files (snd res) = files (fix_timestamp x p w)"
    unfolding res_def p_def
    using parsed by (intro load_miss_parsed(1) [OF miss]) (simp add: p_def)
  have a: "Utime p (now - 1) (now - 1) \<in> set evs"
    using sub by (auto simp: ts)
  have b: "files (snd res) p = Some (f\<lparr>st_atime := now - 1, st_mtime := now - 1\<rparr>)
      \<and> (case files (snd res) p of Some f' \<Rightarrow> st_mtime f' \<le> now | None \<Rightarrow> False)
      \<and> G_debug (Timestamp_fixed p) \<in> set evs" if "utime_permitted f"
    using that sub exists future by (auto simp: ts fl fix_timestamp_files now_def)
  have c: "files (snd res) = files w \<and> G_debug (Timestamp_not_fixed p) \<in> set evs"
    if "\<not> utime_permitted f"
    using that sub exists by (auto simp: ts fl fix_timestamp_files)
  have d: "files (snd res) q = files w q" if "q \<noteq> p" for q
    using that exists by (simp add: fl fix_timestamp_files)
  have "w\<lparr>files := files w\<rparr> = w"
    by simp
  then have e: "fst res = fst granted \<and> nvticache (snd res) = nvticache (snd granted)
      \<and> prefs (snd res) = prefs (snd granted)"
    unfolding res_def granted_def
    using load_files_irrelevant [where x = x and folder = folder and name = name and w = w
        and F = "(files w)(p \<mapsto> f\<lparr>utime_permitted := True\<rparr>)"]
    by simp
  from a b c d e show ?thesis by blast
qed

text \<open>
  On the sample installation (the clock is at 1000, the file was modified at 2000), with
  a file whose times may be changed and with one whose times may not.
\<close>

theorem nasl_plugin_add_future_mtime_witness:
  "files (snd (nasl_plugin_add demo_extern ''/plugins'' ''services.nasl'' demo_world))
       ''/plugins/services.nasl'' =
     Some \<lparr>st_atime = 999, st_mtime = 999, utime_permitted = True\<rparr>
   \<and> Utime ''/plugins/services.nasl'' 999 999
       \<in> set (new_events demo_world
                (snd (nasl_plugin_add demo_extern ''/plugins'' ''services.nasl'' demo_world)))
   \<and> files (snd (nasl_plugin_add demo_extern ''/plugins'' ''services.nasl'' readonly_world)) =
       files readonly_world
   \<and> G_debug (Timestamp_not_fixed ''/plugins/services.nasl'')
       \<in> set (new_events readonly_world
                (snd (nasl_plugin_add demo_extern ''/plugins'' ''services.nasl'' readonly_world)))
   \<and> files (snd (nasl_plugin_add demo_extern ''/plugins'' ''services.nasl'' demo_world))
       ''/plugins/exit_early.nasl'' = files demo_world ''/plugins/exit_early.nasl''"
proof -
  have ok: "\<not> fst (interp_descr demo_extern (fullname_of demo_extern ''/plugins'' ''services.nasl'')
      (descr_mode demo_extern demo_world) nvti_new) < 0"
    "\<not> fst (interp_descr demo_extern (fullname_of demo_extern ''/plugins'' ''services.nasl'')
      (descr_mode demo_extern readonly_world) nvti_new) < 0"
    by (simp_all add: demo_fullname demo_mode demo_parse)
  have f: "files demo_world (fullname_of demo_extern ''/plugins'' ''services.nasl'') =
      Some \<lparr>st_atime = 10, st_mtime = 2000, utime_permitted = True\<rparr>"
    "files readonly_world (fullname_of demo_extern ''/plugins'' ''services.nasl'') =
      Some \<lparr>st_atime = 10, st_mtime = 2000, utime_permitted = False\<rparr>"
    by (simp_all add: demo_fullname demo_files)
  have future: "time_NULL demo_extern < st_mtime \<lparr>st_atime = 10, st_mtime = 2000, utime_permitted = True\<rparr>"
    "time_NULL demo_extern < st_mtime \<lparr>st_atime = 10, st_mtime = 2000, utime_permitted = False\<rparr>"
    by (simp_all add: demo_files)
  note t1 = nasl_plugin_add_future_mtime [OF demo_cache(1) ok(1) f(1) future(1)]
  note t2 = nasl_plugin_add_future_mtime [OF demo_cache(2) ok(2) f(2) future(2)]
  from t1 [THEN conjunct1] t1 [THEN conjunct2, THEN conjunct1]
  have a: "files (snd (nasl_plugin_add demo_extern ''/plugins'' ''services.nasl'' demo_world))
       ''/plugins/services.nasl'' =
     Some \<lparr>st_atime = 999, st_mtime = 999, utime_permitted = True\<rparr>
   \<and> Utime ''/plugins/services.nasl'' 999 999
       \<in> set (new_events demo_world
                (snd (nasl_plugin_add demo_extern ''/plugins'' ''services.nasl'' demo_world)))"
    by (simp add: demo_fullname demo_files)
  from t2 [THEN conjunct2, THEN conjunct2, THEN conjunct1]
  have b: "files (snd (nasl_plugin_add demo_extern ''/plugins'' ''services.nasl'' readonly_world)) =
       files readonly_world
   \<and> G_debug (Timestamp_not_fixed ''/plugins/services.nasl'')
       \<in> set (new_events readonly_world
                (snd (nasl_plugin_add demo_extern ''/plugins'' ''services.nasl'' readonly_world)))"
    by (simp add: demo_fullname)
  have "''/plugins/exit_early.nasl'' \<noteq> fullname_of demo_extern ''/plugins'' ''services.nasl''"
    by (simp add: demo_fullname)
  from t1 [THEN conjunct2, THEN conjunct2, THEN conjunct2, THEN conjunct1, rule_format, OF this]
  have c: "files (snd (nasl_plugin_add demo_extern ''/plugins'' ''services.nasl'' demo_world))
       ''/plugins/exit_early.nasl'' = files demo_world ''/plugins/exit_early.nasl''" .
  from a b c show ?thesis by blast
qed

text \<open>
  C3, amended. When the cache holds a descriptor with an OID under the name, a load of the
  name returns 0, does not call the interpreter, writes exactly the pairs of that
  descriptor and leaves the cache as it is. After a load of the name that returned 0 the
  cache holds such a descriptor, and a second load, started with the cache as the first one
  left it, returns 0, does not call the interpreter and writes the same pairs, in the same
  order, as the first.
\<close>

theorem nasl_plugin_add_second_load:
  fixes x :: "'c extern" and folder name :: string and w0 w :: "'c world"
  defines "first \<equiv> nasl_plugin_add x folder name w0"
  defines "second \<equiv> nasl_plugin_add x folder name w"
  shows "(\<forall>n. cache_get x (nvticache w) name = Some n \<and> nvti_oid n \<noteq> None \<longrightarrow>
            fst second = 0
          \<and> filter is_exec (new_events w (snd second)) = []
          \<and> writes (new_events w (snd second)) = pref_writes n
          \<and> nvticache (snd second) = nvticache w)
    \<and> (fst first = 0 \<and> nvticache w = nvticache (snd first) \<longrightarrow>
            (\<exists>n. cache_get x (nvticache w) name = Some n \<and> nvti_oid n \<noteq> None)
          \<and> fst second = 0
          \<and> filter is_exec (new_events w (snd second)) = []
          \<and> writes (new_events w (snd second)) = writes (new_events w0 (snd first)))"
proof -
  have hit: "fst second = 0
      \<and> filter is_exec (new_events w (snd second)) = []
      \<and> writes (new_events w (snd second)) = pref_writes n
      \<and> nvticache (snd second) = nvticache w"
    if c: "cache_get x (nvticache w) name = Some n" and o: "nvti_oid n \<noteq> None" for n
  proof -
    have r: "second = (0, prefs_add_nvti (Some n) (emit (Nvticache_get name) w))"
      unfolding second_def by (rule load_hit_ok [OF c o])
    have e: "new_events w (snd second) =
        Nvticache_get name # map (\<lambda>(k, v). Prefs_set k v) (pref_writes n)"
      by (rule new_events_append) (simp add: r loader_fields)
    show ?thesis
      by (simp add: e no_exec_in_prefs writes_Prefs_set) (simp add: r loader_fields)
  qed
  have again: "(\<exists>n. cache_get x (nvticache w) name = Some n \<and> nvti_oid n \<noteq> None)
      \<and> fst second = 0
      \<and> filter is_exec (new_events w (snd second)) = []
      \<and> writes (new_events w (snd second)) = writes (new_events w0 (snd first))"
    if ok: "fst first = 0" and same: "nvticache w = nvticache (snd first)"
  proof -
    from load_outcome [where x = x and w = w0 and name = name and folder = folder] ok
    obtain n where n: "cache_get x (nvticache (snd first)) name = Some n" "nvti_oid n \<noteq> None"
      "writes (new_events w0 (snd first)) = pref_writes n"
      unfolding first_def by blast
    from n(1) same have c: "cache_get x (nvticache w) name = Some n"
      by simp
    from hit [OF c n(2)] c n show ?thesis
      by auto
  qed
  from hit again show ?thesis by blast
qed

text \<open>
  Without the OID the statement fails: a name that is in the cache with a descriptor
  without OID is rejected by lines 178-184. The load returns -1, the entry stays, and the
  next load returns -1 again.
\<close>

theorem nasl_plugin_add_cached_null_oid_counterexample:
  "cache_get demo_extern (nvticache stale_world) ''stale.nasl'' = Some stale_nvti
   \<and> fst (nasl_plugin_add demo_extern ''/plugins'' ''stale.nasl'' stale_world) = - 1
   \<and> cache_get demo_extern
       (nvticache (snd (nasl_plugin_add demo_extern ''/plugins'' ''stale.nasl'' stale_world)))
       ''stale.nasl'' = Some stale_nvti
   \<and> fst (nasl_plugin_add demo_extern ''/plugins'' ''stale.nasl''
            (snd (nasl_plugin_add demo_extern ''/plugins'' ''stale.nasl'' stale_world))) = - 1"
proof -
  have first: "nasl_plugin_add demo_extern ''/plugins'' ''stale.nasl'' stale_world =
      (- 1, emit (G_debug (Failed_to_load_no_OID ''stale.nasl'')) (emit (Nvticache_get ''stale.nasl'') stale_world))"
    by (rule load_hit_no_oid [OF demo_cache(3) demo_oid(2)])
  have c: "cache_get demo_extern
      (nvticache (emit (G_debug (Failed_to_load_no_OID ''stale.nasl''))
         (emit (Nvticache_get ''stale.nasl'') stale_world))) ''stale.nasl'' = Some stale_nvti"
    by (simp add: demo_cache)
  show ?thesis
    by (simp add: first demo_cache load_hit_no_oid [OF c demo_oid(2)])
qed

text \<open>On the sample installation: the first load parses and commits, the second finds
  the entry.\<close>

theorem nasl_plugin_add_second_load_witness:
  "fst (nasl_plugin_add demo_extern ''/plugins'' ''services.nasl'' demo_world) = 0
   \<and> fst (nasl_plugin_add demo_extern ''/plugins'' ''services.nasl''
        (snd (nasl_plugin_add demo_extern ''/plugins'' ''services.nasl'' demo_world))) = 0
   \<and> filter is_exec
        (new_events (snd (nasl_plugin_add demo_extern ''/plugins'' ''services.nasl'' demo_world))
           (snd (nasl_plugin_add demo_extern ''/plugins'' ''services.nasl''
              (snd (nasl_plugin_add demo_extern ''/plugins'' ''services.nasl'' demo_world))))) = []
   \<and> writes
        (new_events (snd (nasl_plugin_add demo_extern ''/plugins'' ''services.nasl'' demo_world))
           (snd (nasl_plugin_add demo_extern ''/plugins'' ''services.nasl''
              (snd (nasl_plugin_add demo_extern ''/plugins'' ''services.nasl'' demo_world))))) =
     writes (new_events demo_world
        (snd (nasl_plugin_add demo_extern ''/plugins'' ''services.nasl'' demo_world)))
   \<and> fst (nasl_plugin_add demo_extern ''/plugins'' ''services.nasl'' cached_world) = 0
   \<and> writes (new_events cached_world
        (snd (nasl_plugin_add demo_extern ''/plugins'' ''services.nasl'' cached_world))) =
       [(''Services[entry]:Timeout :'', ''5''),
        (''Services[checkbox]:Parallel'', ''no''),
        (''Services[entry]:Timeout :'', ''9'')]"
proof -
  note u = nasl_plugin_add_second_load
    [where x = demo_extern and folder = "''/plugins''" and name = "''services.nasl''"
       and ?w0.0 = demo_world and w = cached_world,
     THEN conjunct1, rule_format, of services_nvti]
  have hu: "cache_get demo_extern (nvticache cached_world) ''services.nasl'' = Some services_nvti
      \<and> nvti_oid services_nvti \<noteq> None"
    by (simp add: demo_cache demo_oid)
  note t = nasl_plugin_add_second_load
    [where x = demo_extern and folder = "''/plugins''" and name = "''services.nasl''"
       and ?w0.0 = demo_world
       and w = "snd (nasl_plugin_add demo_extern ''/plugins'' ''services.nasl'' demo_world)",
     THEN conjunct2, rule_format]
  have h: "fst (nasl_plugin_add demo_extern ''/plugins'' ''services.nasl'' demo_world) = 0
      \<and> nvticache (snd (nasl_plugin_add demo_extern ''/plugins'' ''services.nasl'' demo_world)) =
        nvticache (snd (nasl_plugin_add demo_extern ''/plugins'' ''services.nasl'' demo_world))"
    by (simp add: demo_first_load)
  from u [OF hu] have c: "fst (nasl_plugin_add demo_extern ''/plugins'' ''services.nasl'' cached_world) = 0
      \<and> writes (new_events cached_world
        (snd (nasl_plugin_add demo_extern ''/plugins'' ''services.nasl'' cached_world))) =
       [(''Services[entry]:Timeout :'', ''5''),
        (''Services[checkbox]:Parallel'', ''no''),
        (''Services[entry]:Timeout :'', ''9'')]"
    by (simp add: demo_pref_writes)
  from t [OF h] demo_first_load c show ?thesis
    by blast
qed

end
